theory Spec2Isabelle
  imports
    Main
    "HOL-Library.Sublist"
    "HOL-Library.Char_ord"
    "HOL-Library.List_Lexorder"
    "HOL-Library.AList"
begin

section \<open>JavaScript values\<close>

text \<open>
  The proxy handles request bodies, tool calls and upstream responses as plain JSON-like
  JavaScript values. An object is an association list in property order (keys distinct in a
  well-formed value, the first binding is the one a lookup sees). Numbers are restricted
  to integers: the fields the code inspects (HTTP statuses, counters, timestamps) are
  integral.
\<close>

datatype json =
    JUndefined
  | JNull
  | JBool bool
  | JNum int
  | JStr string
  | JArr "json list"
  | JObj "(string \<times> json) list"

text \<open>An exception raised by the code: the constructor name of the error and its message.\<close>

datatype js_error = Error string | TypeError string

text \<open>JavaScript truthiness (\<open>!v\<close> is \<open>\<not> truthy v\<close>).\<close>

fun truthy :: "json \<Rightarrow> bool" where
  "truthy JUndefined = False"
| "truthy JNull = False"
| "truthy (JBool b) = b"
| "truthy (JNum n) = (n \<noteq> 0)"
| "truthy (JStr s) = (s \<noteq> [])"
| "truthy (JArr xs) = True"
| "truthy (JObj kvs) = True"

text \<open>\<open>v === undefined || v === null\<close>, the test behind \<open>??\<close> and \<open>?.\<close>.\<close>

fun nullish :: "json \<Rightarrow> bool" where
  "nullish JUndefined = True"
| "nullish JNull = True"
| "nullish v = False"

text \<open>\<open>a ?? b\<close>\<close>

definition coalesce :: "json \<Rightarrow> json \<Rightarrow> json" where
  "coalesce a b = (if nullish a then b else a)"

text \<open>
  \<open>v?.k\<close> for the property names the code reads (none of them is a property of a
  built-in prototype): an own property of an object, \<open>undefined\<close> on everything else.
  Where the code reads \<open>v.k\<close> without the \<open>?.\<close> and \<open>v\<close> can be nullish, the
  model raises the TypeError before calling \<open>getProp\<close>.
\<close>

fun getProp :: "json \<Rightarrow> string \<Rightarrow> json" where
  "getProp (JObj kvs) k = (case map_of kvs k of Some v \<Rightarrow> v | None \<Rightarrow> JUndefined)"
| "getProp v k = JUndefined"

text \<open>\<open>v?.[0]\<close>\<close>

fun index0 :: "json \<Rightarrow> json" where
  "index0 (JArr []) = JUndefined"
| "index0 (JArr (x # xs)) = x"
| "index0 (JStr []) = JUndefined"
| "index0 (JStr (c # cs)) = JStr [c]"
| "index0 (JObj kvs) = getProp (JObj kvs) ''0''"
| "index0 v = JUndefined"

fun isString :: "json \<Rightarrow> bool" where
  "isString (JStr s) = True"
| "isString v = False"

fun isArray :: "json \<Rightarrow> bool" where
  "isArray (JArr xs) = True"
| "isArray v = False"

text \<open>\<open>typeof v === "object"\<close> (which arrayIncludes \<open>null\<close> and arrays).\<close>

fun typeofObject :: "json \<Rightarrow> bool" where
  "typeofObject JNull = True"
| "typeofObject (JArr xs) = True"
| "typeofObject (JObj kvs) = True"
| "typeofObject v = False"

section \<open>Workspace paths (src/workspace/index.js)\<close>

text \<open>\<open>s.split(sep)\<close> for a separator of one character; the pieces may be empty.\<close>

fun splitOn :: "char \<Rightarrow> string \<Rightarrow> string list" where
  "splitOn sep [] = [[]]"
| "splitOn sep (c # cs) =
     (if c = sep then [] # splitOn sep cs
      else (case splitOn sep cs of
              [] \<Rightarrow> [[c]]
            | seg # segs \<Rightarrow> (c # seg) # segs))"

text \<open>
  Node's \<open>normalizeString\<close> for an absolute POSIX path: empty and \<open>.\<close> segments
  vanish, \<open>..\<close> removes the segment before it and is dropped at the root. The
  accumulator holds the segments kept so far, last one first.
\<close>

fun normalizeSegments :: "string list \<Rightarrow> string list \<Rightarrow> string list" where
  "normalizeSegments acc [] = rev acc"
| "normalizeSegments acc (seg # segs) =
     (if seg = [] \<or> seg = ''.'' then normalizeSegments acc segs
      else if seg = ''..'' then normalizeSegments (tl acc) segs
      else normalizeSegments (seg # acc) segs)"

fun joinSlash :: "string list \<Rightarrow> string" where
  "joinSlash [] = []"
| "joinSlash [seg] = seg"
| "joinSlash (seg # segs) = seg @ ''/'' @ joinSlash segs"

text \<open>
  \<open>path.resolve(root, target)\<close> on POSIX, for an absolute \<open>root\<close> (the module
  computes \<open>workspaceRoot\<close> with \<open>path.resolve\<close>, so it is absolute and normalised):
  arguments are taken from the right until one is absolute, empty ones are skipped, and
  the concatenation is normalised.
\<close>

definition path_resolve :: "string \<Rightarrow> string \<Rightarrow> string" where
  "path_resolve root target =
     (let joined =
            (if target = [] then root @ ''/''
             else if hd target = CHR ''/'' then target @ ''/''
             else root @ ''/'' @ target @ ''/'')
      in ''/'' @ joinSlash (normalizeSegments [] (splitOn CHR ''/'' joined)))"

text \<open>
  \<open>resolveWorkspacePath(targetPath)\<close> for a string argument; \<open>workspaceRoot\<close> is the
  module constant, passed explicitly. \<open>resolved.startsWith(workspaceRoot)\<close> is the
  prefix test on the characters of the two strings.
\<close>

definition resolveWorkspacePath :: "string \<Rightarrow> string \<Rightarrow> js_error + string" where
  "resolveWorkspacePath workspaceRoot targetPath =
     (if targetPath = [] then Inl (Error ''Path must be a non-empty string.'')
      else
        let resolved = path_resolve workspaceRoot targetPath
        in if \<not> prefix workspaceRoot resolved
           then Inl (Error ''Access outside workspace is not permitted.'')
           else Inr resolved)"

text \<open>
  A path lies within the workspace root when it is the root directory itself or a
  descendant of it: the root's segments are the leading segments of the path.
\<close>

definition path_segments :: "string \<Rightarrow> string list" where
  "path_segments p = filter (\<lambda>seg. seg \<noteq> []) (splitOn CHR ''/'' p)"

definition within_root :: "string \<Rightarrow> string \<Rightarrow> bool" where
  "within_root root p = prefix (path_segments root) (path_segments p)"

section \<open>Platform functions\<close>

text \<open>
  Built-ins of the runtime that the code calls and the model does not look into:
  \<open>JSON.stringify\<close> (plain, and with the indentation \<open>null, 2\<close>), \<open>JSON.parse\<close>
  (\<open>None\<close> when it raises a SyntaxError) and
  the SHA-256 digest in hexadecimal. They are passed to every function that uses them.
\<close>

record platform =
  JSON_stringify :: "json \<Rightarrow> string"
  JSON_stringify_indented :: "json \<Rightarrow> string"
  JSON_parse :: "string \<Rightarrow> json option"
  sha256_hex :: "string \<Rightarrow> string"

section \<open>Prompt cache (src/cache/prompt.js)\<close>

text \<open>
  \<open>cloneValue\<close> (\<open>structuredClone\<close>) copies a value; values have no identity here,
  so the copy is the value.
\<close>

definition cloneValue :: "json \<Rightarrow> json" where
  "cloneValue v = v"

text \<open>
  The body of the loop of \<open>normaliseObject\<close>, on entries whose values are already
  normalised: the keys in sorted order (\<open>Object.keys(value).sort()\<close> compares code
  units), each with the value the object holds for it, skipping \<open>undefined\<close>.
\<close>

definition sortedEntries :: "(string \<times> json) list \<Rightarrow> (string \<times> json) list" where
  "sortedEntries kvs =
     map (\<lambda>k. (k, getProp (JObj kvs) k))
       (filter (\<lambda>k. getProp (JObj kvs) k \<noteq> JUndefined) (sort (remdups (map fst kvs))))"

text \<open>
  \<open>normaliseObject\<close>. The recursive calls are made on the values before the keys are
  visited; the loop of the source makes them while visiting, on the same values
  (lemma \<open>normaliseObject_loop\<close> below gives the source's form).
\<close>

fun normaliseObject :: "json \<Rightarrow> json" where
  "normaliseObject (JArr xs) = JArr (map normaliseObject xs)"
| "normaliseObject (JObj kvs) =
     JObj (sortedEntries (map (\<lambda>(k, v). (k, normaliseObject v)) kvs))"
| "normaliseObject v = v"

definition stableStringify :: "platform \<Rightarrow> json \<Rightarrow> string" where
  "stableStringify pf v = JSON_stringify pf (normaliseObject v)"

record entry =
  val :: json
  createdAt :: int
  expiresAt :: "int option"

text \<open>
  The cache object. \<open>store\<close> is the \<open>Map\<close>: its entries in insertion order, the
  oldest first.
\<close>

record cache =
  enabled :: bool
  maxEntries :: nat
  ttlMs :: int
  store :: "(string \<times> entry) list"

text \<open>\<open>Number.isInteger(v) && v > 0 ? v : dflt\<close>\<close>

fun positiveIntegerOr :: "json \<Rightarrow> int \<Rightarrow> int" where
  "positiveIntegerOr (JNum n) dflt = (if n > 0 then n else dflt)"
| "positiveIntegerOr v dflt = dflt"

text \<open>The constructor, for an \<open>options\<close> object.\<close>

definition PromptCache :: "json \<Rightarrow> cache" where
  "PromptCache options =
     \<lparr> enabled = (getProp options ''enabled'' = JBool True),
       maxEntries = nat (positiveIntegerOr (getProp options ''maxEntries'') 64),
       ttlMs = positiveIntegerOr (getProp options ''ttlMs'') 300000,
       store = [] \<rparr>"

definition isEnabled :: "cache \<Rightarrow> bool" where
  "isEnabled c = enabled c"

text \<open>\<open>payload.f ? normaliseObject(payload.f) : null\<close>\<close>

definition normalisedOrNull :: "json \<Rightarrow> json" where
  "normalisedOrNull v = (if truthy v then normaliseObject v else JNull)"

text \<open>The object \<open>canonical\<close> that \<open>buildKey\<close> serialises.\<close>

definition canonical :: "json \<Rightarrow> json" where
  "canonical payload =
     JObj [(''model'', coalesce (getProp payload ''model'') JNull),
           (''input'', coalesce (getProp payload ''input'') JNull),
           (''messages'', normalisedOrNull (getProp payload ''messages'')),
           (''tools'', normalisedOrNull (getProp payload ''tools'')),
           (''tool_choice'', normalisedOrNull (getProp payload ''tool_choice'')),
           (''temperature'', coalesce (getProp payload ''temperature'') JNull),
           (''top_p'', coalesce (getProp payload ''top_p'') JNull),
           (''max_tokens'', coalesce (getProp payload ''max_tokens'') JNull)]"

text \<open>
  \<open>buildKey\<close>; \<open>None\<close> is \<open>null\<close>. Serialising and hashing a JSON value does
  not raise, so the \<open>catch\<close> branch (which also returns \<open>null\<close>) has no counterpart.
\<close>

definition buildKey :: "platform \<Rightarrow> cache \<Rightarrow> json \<Rightarrow> string option" where
  "buildKey pf c payload =
     (if \<not> enabled c then None
      else if \<not> truthy payload \<or> \<not> typeofObject payload then None
      else Some (sha256_hex pf (stableStringify pf (canonical payload))))"

text \<open>\<open>entry.expiresAt && entry.expiresAt <= now\<close>\<close>

definition expired :: "int \<Rightarrow> entry \<Rightarrow> bool" where
  "expired now e = (case expiresAt e of None \<Rightarrow> False | Some t \<Rightarrow> t \<noteq> 0 \<and> t \<le> now)"

text \<open>
  Every operation reads the clock (\<open>Date.now()\<close>); the reading is the argument
  \<open>now\<close>, one per operation.
\<close>

definition pruneExpired :: "int \<Rightarrow> cache \<Rightarrow> cache" where
  "pruneExpired now c =
     (if \<not> enabled c then c
      else if ttlMs c \<le> 0 then c
      else c\<lparr>store := filter (\<lambda>(k, e). \<not> expired now e) (store c)\<rparr>)"

text \<open>
  \<open>typeof payloadOrKey === "string" ? payloadOrKey : this.buildKey(payloadOrKey)\<close>,
  followed by the test \<open>!key\<close>: \<open>None\<close> when the key is \<open>null\<close> or empty.
\<close>

definition keyOf :: "platform \<Rightarrow> cache \<Rightarrow> json \<Rightarrow> string option" where
  "keyOf pf c payloadOrKey =
     (let key = (case payloadOrKey of JStr s \<Rightarrow> Some s | _ \<Rightarrow> buildKey pf c payloadOrKey)
      in case key of None \<Rightarrow> None | Some k \<Rightarrow> if k = [] then None else Some k)"

text \<open>
  \<open>lookup\<close> returns \<open>{key, entry}\<close> and the cache it leaves. \<open>Map.delete\<close> is
  \<open>AList.delete\<close>; \<open>Map.set\<close> is \<open>AList.update\<close> (a new key goes to the end, an
  existing key keeps its place).
\<close>

definition lookup :: "platform \<Rightarrow> int \<Rightarrow> cache \<Rightarrow> json \<Rightarrow> (string option \<times> entry option) \<times> cache" where
  "lookup pf now c payloadOrKey =
     (if \<not> enabled c then ((None, None), c)
      else case keyOf pf c payloadOrKey of
        None \<Rightarrow> ((None, None), c)
      | Some key \<Rightarrow>
          let c1 = pruneExpired now c in
          (case map_of (store c1) key of
             None \<Rightarrow> ((Some key, None), c1)
           | Some e \<Rightarrow>
               if expired now e
               then ((Some key, None), c1\<lparr>store := AList.delete key (store c1)\<rparr>)
               else ((Some key, Some e),
                     c1\<lparr>store := AList.update key e (AList.delete key (store c1))\<rparr>)))"

text \<open>\<open>fetch\<close> returns \<open>{key, response}\<close> or \<open>null\<close>.\<close>

definition fetch :: "platform \<Rightarrow> int \<Rightarrow> cache \<Rightarrow> json \<Rightarrow> (string \<times> json) option \<times> cache" where
  "fetch pf now c payload =
     (case lookup pf now c payload of
        ((key, None), c') \<Rightarrow> (None, c')
      | ((None, Some e), c') \<Rightarrow> (None, c')
      | ((Some key, Some e), c') \<Rightarrow> (Some (key, cloneValue (val e)), c'))"

fun nonEmptyArray :: "json \<Rightarrow> bool" where
  "nonEmptyArray (JArr (x # xs)) = True"
| "nonEmptyArray v = False"

fun isNumberOtherThan :: "int \<Rightarrow> json \<Rightarrow> bool" where
  "isNumberOtherThan m (JNum n) = (n \<noteq> m)"
| "isNumberOtherThan m v = False"

text \<open>\<open>response.json?.choices?.[0]\<close>\<close>

definition firstChoice :: "json \<Rightarrow> json" where
  "firstChoice response = index0 (getProp (getProp response ''json'') ''choices'')"

definition shouldCacheResponse :: "json \<Rightarrow> bool" where
  "shouldCacheResponse response =
     (if \<not> truthy response then False
      else if getProp response ''ok'' \<noteq> JBool True then False
      else if \<not> truthy (getProp response ''json'') then False
      else if isNumberOtherThan 200 (getProp response ''status'') then False
      else
        let choice = firstChoice response in
        if \<not> truthy choice then False
        else if getProp choice ''finish_reason'' = JStr ''tool_calls'' then False
        else
          let message = coalesce (getProp choice ''message'') (JObj []) in
          if nonEmptyArray (getProp message ''tool_calls'') then False
          else True)"

text \<open>
  The loop \<open>while (this.store.size > this.maxEntries)\<close>: each round deletes the first
  key of the \<open>Map\<close>.
\<close>

function evictOldest :: "nat \<Rightarrow> 'a list \<Rightarrow> 'a list" where
  "evictOldest m st = (if length st > m then evictOldest m (tl st) else st)"
  by pat_completeness auto
termination
  by (relation "measure (\<lambda>(m, st). length st)") auto

declare evictOldest.simps [simp del]

text \<open>\<open>storeResponse\<close> returns the key or \<open>null\<close>, and the cache it leaves.\<close>

definition storeResponse :: "platform \<Rightarrow> int \<Rightarrow> cache \<Rightarrow> json \<Rightarrow> json \<Rightarrow> string option \<times> cache" where
  "storeResponse pf now c payloadOrKey response =
     (if \<not> enabled c then (None, c)
      else if \<not> shouldCacheResponse response then (None, c)
      else case keyOf pf c payloadOrKey of
        None \<Rightarrow> (None, c)
      | Some key \<Rightarrow>
          let c1 = pruneExpired now c;
              e = \<lparr> val = cloneValue response,
                    createdAt = now,
                    expiresAt = (if ttlMs c1 > 0 then Some (now + ttlMs c1) else None) \<rparr>;
              st1 = (if key \<in> fst ` set (store c1) then AList.delete key (store c1) else store c1);
              st2 = AList.update key e st1;
              st3 = evictOldest (maxEntries c1) st2
          in (Some key, c1\<lparr>store := st3\<rparr>))"

definition stats :: "cache \<Rightarrow> bool \<times> nat \<times> int \<times> nat" where
  "stats c = (enabled c, length (store c), ttlMs c, maxEntries c)"

text \<open>The keys of the \<open>Map\<close>, the least recently used first.\<close>

definition keysOf :: "cache \<Rightarrow> string list" where
  "keysOf c = map fst (store c)"

text \<open>
  The calls that change a cache, each with the reading of the clock at the call, and the
  cache that a sequence of calls leaves.
\<close>

datatype cache_op =
    Lookup json int
  | Fetch json int
  | StoreResponse json json int
  | PruneExpired int

fun applyOp :: "platform \<Rightarrow> cache \<Rightarrow> cache_op \<Rightarrow> cache" where
  "applyOp pf c (Lookup payloadOrKey now) = snd (lookup pf now c payloadOrKey)"
| "applyOp pf c (Fetch payload now) = snd (fetch pf now c payload)"
| "applyOp pf c (StoreResponse payloadOrKey response now) =
     snd (storeResponse pf now c payloadOrKey response)"
| "applyOp pf c (PruneExpired now) = pruneExpired now c"

definition runOps :: "platform \<Rightarrow> cache \<Rightarrow> cache_op list \<Rightarrow> cache" where
  "runOps pf c ops = foldl (applyOp pf) c ops"

text \<open>
  A sequence of writes: each is the payload or key, the response and the time of a call
  of \<open>storeResponse\<close>.
\<close>

definition storeAll :: "platform \<Rightarrow> cache \<Rightarrow> (json \<times> json \<times> int) list \<Rightarrow> cache" where
  "storeAll pf c ws = foldl (\<lambda>c (pk, r, t). snd (storeResponse pf t c pk r)) c ws"

text \<open>
  Properties of a cache and of a sequence of writes. \<open>cacheInv\<close> holds of every cache
  that calls have led to: the size cap is positive, the keys are distinct and there are
  at most \<open>maxEntries\<close> of them. \<open>writtenKeys\<close> are the keys under which a sequence
  of writes stores, in order; the writes are \<open>admissible\<close> when every response passes
  \<open>shouldCacheResponse\<close> and has a key. \<open>withinTtl\<close> says that no entry expires while
  the writes are made: the entries of the cache are not expired at the time of any write,
  and every write is made less than \<open>ttlMs\<close> after every other.
\<close>

definition cacheInv :: "cache \<Rightarrow> bool" where
  "cacheInv c \<longleftrightarrow> 0 < maxEntries c \<and> distinct (keysOf c) \<and> length (store c) \<le> maxEntries c"

definition writtenKeys :: "platform \<Rightarrow> cache \<Rightarrow> (json \<times> json \<times> int) list \<Rightarrow> string list" where
  "writtenKeys pf c ws = List.map_filter (\<lambda>(pk, r, t). keyOf pf c pk) ws"

definition admissible :: "platform \<Rightarrow> cache \<Rightarrow> (json \<times> json \<times> int) list \<Rightarrow> bool" where
  "admissible pf c ws \<longleftrightarrow> list_all (\<lambda>(pk, r, t). shouldCacheResponse r \<and> keyOf pf c pk \<noteq> None) ws"

definition withinTtl :: "cache \<Rightarrow> (json \<times> json \<times> int) list \<Rightarrow> bool" where
  "withinTtl c ws \<longleftrightarrow>
     list_all (\<lambda>(pk, r, t).
        list_all (\<lambda>(k, e). \<not> expired t e) (store c)
      \<and> list_all (\<lambda>(pk', r', t'). t < t' + ttlMs c) ws) ws"

definition freshAt :: "cache \<Rightarrow> int set \<Rightarrow> bool" where
  "freshAt c T \<longleftrightarrow> (\<forall>(k, e) \<in> set (store c). \<forall>t \<in> T. \<not> expired t e)"

definition timesOf :: "(json \<times> json \<times> int) list \<Rightarrow> int set" where
  "timesOf ws = (\<lambda>(pk, r, t). t) ` set ws"

section \<open>Strings\<close>

text \<open>
  Strings are sequences of code units below 256. \<open>showNat\<close> and \<open>showInt\<close> print a
  number in decimal, as the conversion of an integral number to a string does.
\<close>

function showNat :: "nat \<Rightarrow> string" where
  "showNat n = (if n < 10 then [char_of (48 + n)] else showNat (n div 10) @ [char_of (48 + n mod 10)])"
  by pat_completeness auto
termination
  by (relation "measure (\<lambda>n. n)") auto

declare showNat.simps [simp del]

definition showInt :: "int \<Rightarrow> string" where
  "showInt i = (if i < 0 then ''-'' @ showNat (nat (- i)) else showNat (nat i))"

fun joinStrings :: "string \<Rightarrow> string list \<Rightarrow> string" where
  "joinStrings sep [] = []"
| "joinStrings sep [x] = x"
| "joinStrings sep (x # xs) = x @ sep @ joinStrings sep xs"

text \<open>
  The conversion of a value to a string (\<open>String(v)\<close>, template literals); an array
  is its elements joined by commas, \<open>undefined\<close> and \<open>null\<close> elements printing as
  nothing.
\<close>

fun jsToString :: "json \<Rightarrow> string" where
  "jsToString JUndefined = ''undefined''"
| "jsToString JNull = ''null''"
| "jsToString (JBool b) = (if b then ''true'' else ''false'')"
| "jsToString (JNum n) = showInt n"
| "jsToString (JStr s) = s"
| "jsToString (JArr xs) =
     joinStrings '','' (map (\<lambda>x. if nullish x then [] else jsToString x) xs)"
| "jsToString (JObj kvs) = ''[object Object]''"

text \<open>\<open>xs.join(sep)\<close>\<close>

definition arrayJoin :: "string \<Rightarrow> json list \<Rightarrow> string" where
  "arrayJoin sep xs = joinStrings sep (map (\<lambda>x. if nullish x then [] else jsToString x) xs)"

text \<open>The white space of \<open>\s\<close> and of \<open>trim\<close>, among the code units below 256.\<close>

definition whiteSpace :: "char list" where
  "whiteSpace = [CHR 0x09, CHR 0x0A, CHR 0x0B, CHR 0x0C, CHR 0x0D, CHR 0x20, CHR 0xA0]"

text \<open>The characters of \<open>\w\<close>.\<close>

definition wordChars :: "char list" where
  "wordChars = ''abcdefghijklmnopqrstuvwxyzABCDEFGHIJKLMNOPQRSTUVWXYZ0123456789_''"

text \<open>\<open>toLowerCase\<close> and \<open>toUpperCase\<close> on the letters of ASCII; other code units stay.\<close>

definition lowerChar :: "char \<Rightarrow> char" where
  "lowerChar c =
     (let n = (of_char c :: nat) in if 65 \<le> n \<and> n \<le> 90 then char_of (n + 32) else c)"

definition upperChar :: "char \<Rightarrow> char" where
  "upperChar c =
     (let n = (of_char c :: nat) in if 97 \<le> n \<and> n \<le> 122 then char_of (n - 32) else c)"

definition toLowerCase :: "string \<Rightarrow> string" where
  "toLowerCase s = map lowerChar s"

section \<open>Regular expressions\<close>

text \<open>
  The constructs that the patterns of the policy use. A pattern is searched for anywhere
  in the input (\<open>regex.test\<close> without the \<open>g\<close> or \<open>y\<close> flag keeps no position).
\<close>

datatype regex =
    Lit string
  | OneOf "char list"
  | Many "char list"
  | Many1 "char list"
  | EndOfInput
  | Seq regex regex
  | Alt regex regex

record regexp =
  source :: regex
  ignoreCase :: bool

text \<open>Comparison of a pattern character with an input character, under the \<open>i\<close> flag or not.\<close>

definition sameChar :: "bool \<Rightarrow> char \<Rightarrow> char \<Rightarrow> bool" where
  "sameChar ic p c = (if ic then upperChar p = upperChar c else p = c)"

fun matchLit :: "bool \<Rightarrow> string \<Rightarrow> string \<Rightarrow> string option" where
  "matchLit ic [] s = Some s"
| "matchLit ic (p # ps) [] = None"
| "matchLit ic (p # ps) (c # cs) = (if sameChar ic p c then matchLit ic ps cs else None)"

text \<open>What is left of the input after any number of leading characters of a class.\<close>

fun manyResidues :: "char list \<Rightarrow> string \<Rightarrow> string list" where
  "manyResidues cls [] = [[]]"
| "manyResidues cls (c # cs) =
     (c # cs) # (if c \<in> set cls then manyResidues cls cs else [])"

text \<open>
  \<open>residues ic r s\<close>: every rest of \<open>s\<close> that a match of \<open>r\<close> at the start of \<open>s\<close>
  can leave.
\<close>

fun residues :: "bool \<Rightarrow> regex \<Rightarrow> string \<Rightarrow> string list" where
  "residues ic (Lit l) s = (case matchLit ic l s of None \<Rightarrow> [] | Some r \<Rightarrow> [r])"
| "residues ic (OneOf cls) s =
     (case s of [] \<Rightarrow> [] | c # cs \<Rightarrow> if c \<in> set cls then [cs] else [])"
| "residues ic (Many cls) s = manyResidues cls s"
| "residues ic (Many1 cls) s =
     (case s of [] \<Rightarrow> [] | c # cs \<Rightarrow> if c \<in> set cls then manyResidues cls cs else [])"
| "residues ic EndOfInput s = (if s = [] then [[]] else [])"
| "residues ic (Seq a b) s = concat (map (residues ic b) (residues ic a s))"
| "residues ic (Alt a b) s = residues ic a s @ residues ic b s"

definition matchesAt :: "regexp \<Rightarrow> string \<Rightarrow> bool" where
  "matchesAt re s = (residues (ignoreCase re) (source re) s \<noteq> [])"

text \<open>\<open>regex.test(value)\<close>: a match starting at some position of the input.\<close>

fun test :: "regexp \<Rightarrow> string \<Rightarrow> bool" where
  "test re [] = matchesAt re []"
| "test re (c # cs) = (matchesAt re (c # cs) \<or> test re cs)"

fun seqs :: "regex list \<Rightarrow> regex" where
  "seqs [] = Lit []"
| "seqs [r] = r"
| "seqs (r # rs) = Seq r (seqs rs)"

section \<open>Policy (src/policy/index.js)\<close>

definition SHELL_BLOCKLIST_PATTERNS :: "regexp list" where
  "SHELL_BLOCKLIST_PATTERNS =
     [\<lparr>source = seqs [Lit ''rm'', Many1 whiteSpace, Lit ''-rf'', Many1 whiteSpace, Lit ''/'',
                       Alt (OneOf whiteSpace) EndOfInput],
        ignoreCase = True\<rparr>,
      \<lparr>source = Lit ''shutdown'', ignoreCase = True\<rparr>,
      \<lparr>source = Lit ''reboot'', ignoreCase = True\<rparr>,
      \<lparr>source = seqs [Lit ''systemctl'', Many1 whiteSpace, Lit ''stop''], ignoreCase = True\<rparr>,
      \<lparr>source = seqs [Lit ''mkfs'', Many wordChars], ignoreCase = True\<rparr>,
      \<lparr>source = seqs [Lit ''dd'', Many1 whiteSpace, Lit ''if=/dev/''], ignoreCase = True\<rparr>,
      \<lparr>source = Alt (seqs [Lit '':'', Lit [], Lit ''{:'']) (Lit '':&};:''), ignoreCase = False\<rparr>,
      \<lparr>source = seqs [Lit ''chown'', Many1 whiteSpace, Lit ''-R'', Many1 whiteSpace, Lit ''root''],
        ignoreCase = True\<rparr>]"

text \<open>
  The seventh pattern is written \<open>/:(){:|:&};:/\<close> in the source. As a regular
  expression it is the alternation of \<open>:(){:\<close> (a colon, an empty group, and the
  literal characters \<open>{:\<close>) and of the literal \<open>:&};:\<close>.
\<close>

definition quoteChars :: "char list" where
  "quoteChars = [CHR 0x27, CHR 0x22]"

definition PYTHON_BLOCKLIST_PATTERNS :: "regexp list" where
  "PYTHON_BLOCKLIST_PATTERNS =
     [\<lparr>source = seqs [Lit ''os.remove'', Many whiteSpace, Lit ''('', Many whiteSpace,
                       OneOf quoteChars, Lit ''/'', OneOf quoteChars, Many whiteSpace, Lit '')''],
        ignoreCase = True\<rparr>,
      \<lparr>source = seqs [Lit ''subprocess.'', Alt (Lit ''call'') (Lit ''run''), Many whiteSpace,
                       Lit ''('', Many whiteSpace, OneOf quoteChars, Lit ''rm'', Many1 whiteSpace,
                       Lit ''-rf''],
        ignoreCase = True\<rparr>,
      \<lparr>source = seqs [Lit ''shutil.rmtree'', Many whiteSpace, Lit ''('', Many whiteSpace,
                       OneOf quoteChars, Lit ''/'', OneOf quoteChars, Many whiteSpace, Lit '')''],
        ignoreCase = True\<rparr>]"

text \<open>\<open>s.trim()\<close>\<close>

definition trim :: "string \<Rightarrow> string" where
  "trim s = rev (dropWhile (\<lambda>c. c \<in> set whiteSpace) (rev (dropWhile (\<lambda>c. c \<in> set whiteSpace) s)))"

text \<open>
  The disallow list as the configuration module builds it from the environment variable
  \<open>POLICY_DISALLOWED_TOOLS\<close> (\<open>None\<close> when unset): the names between commas,
  trimmed, the empty ones dropped.
\<close>

definition policyDisallowedTools :: "string option \<Rightarrow> string list" where
  "policyDisallowedTools env =
     (case env of
        None \<Rightarrow> []
      | Some s \<Rightarrow> filter (\<lambda>t. t \<noteq> []) (map trim (splitOn CHR '','' s)))"

text \<open>The part of \<open>config.policy\<close> that the policy reads.\<close>

record policy_config =
  disallowedTools :: "string list"
  maxToolCallsPerTurn :: int
  allowPush :: bool
  allowPull :: bool
  allowCommit :: bool

text \<open>
  A verdict: \<open>{allowed: true}\<close>, or \<open>{allowed: false, reason, status, code}\<close> (the
  per-tool checks give only a reason).
\<close>

record decision =
  allowed :: bool
  reason :: "string option"
  status :: "int option"
  code :: "string option"

definition allow :: decision where
  "allow = \<lparr>allowed = True, reason = None, status = None, code = None\<rparr>"

definition deny :: "string option \<Rightarrow> int \<Rightarrow> string \<Rightarrow> decision" where
  "deny r s c = \<lparr>allowed = False, reason = r, status = Some s, code = Some c\<rparr>"

text \<open>
  \<open>parseArguments\<close> of the policy: only a string is parsed, anything else, and a
  string that does not parse, gives \<open>{}\<close>.
\<close>

definition policy_parseArguments :: "platform \<Rightarrow> json \<Rightarrow> json" where
  "policy_parseArguments pf call =
     (case getProp (getProp call ''function'') ''arguments'' of
        JStr raw \<Rightarrow> (case JSON_parse pf raw of Some v \<Rightarrow> v | None \<Rightarrow> JObj [])
      | _ \<Rightarrow> JObj [])"

text \<open>\<open>disallowed.includes(toolName)\<close>, the list holding strings.\<close>

fun arrayIncludes :: "string list \<Rightarrow> json \<Rightarrow> bool" where
  "arrayIncludes xs (JStr s) = (s \<in> set xs)"
| "arrayIncludes xs v = False"

definition isToolAllowed :: "policy_config \<Rightarrow> json \<Rightarrow> bool" where
  "isToolAllowed cfg toolName =
     (if \<not> truthy toolName then True else \<not> arrayIncludes (disallowedTools cfg) toolName)"

text \<open>\<open>matchesAny\<close>, for a string value (both callers pass a string).\<close>

definition matchesAny :: "regexp list \<Rightarrow> string \<Rightarrow> bool" where
  "matchesAny patterns v = list_ex (\<lambda>re. test re v) patterns"

text \<open>
  The command string that \<open>evaluateShellCall\<close> builds. \<open>args\<close> is not \<open>null\<close> here.
\<close>

definition shellCommand :: "json \<Rightarrow> string" where
  "shellCommand args =
     (case getProp args ''command'' of JStr s \<Rightarrow> s | _ \<Rightarrow>
      (case getProp args ''cmd'' of JStr s \<Rightarrow> s | _ \<Rightarrow>
       (case getProp args ''run'' of JStr s \<Rightarrow> s | _ \<Rightarrow>
        (case getProp args ''command'' of JArr xs \<Rightarrow> arrayJoin '' '' xs | _ \<Rightarrow>
         (case getProp args ''args'' of JArr xs \<Rightarrow> arrayJoin '' '' xs | _ \<Rightarrow> [])))))"

text \<open>
  \<open>evaluateShellCall\<close>. Reading \<open>args.command\<close> raises a TypeError when \<open>args\<close> is
  \<open>null\<close> (the arguments string \<open>"null"\<close> parses to it).
\<close>

definition evaluateShellCall :: "json \<Rightarrow> js_error + decision" where
  "evaluateShellCall args =
     (if nullish args then Inl (TypeError ''Cannot read properties of null'')
      else
        let command = shellCommand args in
        if command = [] then Inr allow
        else if matchesAny SHELL_BLOCKLIST_PATTERNS command
        then Inr (allow\<lparr>allowed := False, reason := Some ''Command matched restricted pattern''\<rparr>)
        else Inr allow)"

definition pythonCode :: "json \<Rightarrow> string" where
  "pythonCode args =
     (case getProp args ''code'' of JStr s \<Rightarrow> s | _ \<Rightarrow>
      (case getProp args ''script'' of JStr s \<Rightarrow> s | _ \<Rightarrow>
       (case getProp args ''input'' of JStr s \<Rightarrow> s | _ \<Rightarrow> [])))"

definition evaluatePythonCall :: "json \<Rightarrow> js_error + decision" where
  "evaluatePythonCall args =
     (if nullish args then Inl (TypeError ''Cannot read properties of null'')
      else
        let code = pythonCode args in
        if code = [] then Inr allow
        else if matchesAny PYTHON_BLOCKLIST_PATTERNS code
        then Inr (allow\<lparr>allowed := False, reason := Some ''Python code matched restricted pattern''\<rparr>)
        else Inr allow)"

text \<open>\<open>call?.function?.name ?? call?.name\<close>\<close>

definition toolNameOf :: "json \<Rightarrow> json" where
  "toolNameOf call = coalesce (getProp (getProp call ''function'') ''name'') (getProp call ''name'')"

text \<open>The three git gates, for a tool name that starts with \<open>workspace_git_\<close>.\<close>

definition gitGate :: "policy_config \<Rightarrow> string \<Rightarrow> decision option" where
  "gitGate cfg toolName =
     (if toolName = ''workspace_git_push'' \<and> \<not> allowPush cfg
      then Some (deny (Some ''Git push is disabled by policy.'') 403 ''git_push_disabled'')
      else if toolName = ''workspace_git_pull'' \<and> \<not> allowPull cfg
      then Some (deny (Some ''Git pull is disabled by policy.'') 403 ''git_pull_disabled'')
      else if toolName = ''workspace_git_commit'' \<and> \<not> allowCommit cfg
      then Some (deny (Some ''Git commit is disabled by policy.'') 403 ''git_commit_disabled'')
      else None)"

text \<open>
  What \<open>evaluateToolCall\<close> does after the disallow list and the quota, for a tool name
  that is a string: the git gates, then the shell check, then the Python check.
\<close>

definition evaluateByTool :: "policy_config \<Rightarrow> string \<Rightarrow> json \<Rightarrow> js_error + decision" where
  "evaluateByTool cfg toolName args =
     (case (if toolName \<noteq> [] \<and> prefix ''workspace_git_'' toolName then gitGate cfg toolName else None) of
        Some d \<Rightarrow> Inr d
      | None \<Rightarrow>
          if toolName = ''shell'' then
            (case evaluateShellCall args of
               Inl e \<Rightarrow> Inl e
             | Inr d \<Rightarrow> if \<not> allowed d then Inr (deny (reason d) 403 ''unsafe_shell_command'')
                        else Inr allow)
          else if toolName = ''python_exec'' then
            (case evaluatePythonCall args of
               Inl e \<Rightarrow> Inl e
             | Inr d \<Rightarrow> if \<not> allowed d then Inr (deny (reason d) 403 ''unsafe_python_code'')
                        else Inr allow)
          else Inr allow)"

text \<open>
  \<open>evaluateToolCall({call, toolCallsExecuted})\<close>. A tool name that is truthy and not a
  string has no \<open>startsWith\<close> method: the call raises a TypeError. A falsy name that is
  not a string passes every later test.
\<close>

definition evaluateToolCall :: "platform \<Rightarrow> policy_config \<Rightarrow> json \<Rightarrow> int \<Rightarrow> js_error + decision" where
  "evaluateToolCall pf cfg call toolCallsExecuted =
     (let toolName = toolNameOf call in
      if \<not> isToolAllowed cfg toolName
      then Inr (deny (Some (''Tool '' @ jsToString toolName @ '' is disallowed by policy''))
                  403 ''tool_disallowed'')
      else
        let maxToolCalls = maxToolCallsPerTurn cfg in
        if toolCallsExecuted \<ge> maxToolCalls
        then Inr (deny (Some (''Exceeded max tool calls ('' @ showInt maxToolCalls @ '')''))
                    429 ''tool_limit_reached'')
        else
          let args = policy_parseArguments pf call in
          (case toolName of
             JStr s \<Rightarrow> evaluateByTool cfg s args
           | _ \<Rightarrow> if truthy toolName
                  then Inl (TypeError ''toolName.startsWith is not a function'')
                  else Inr allow))"

section \<open>Tool registry (src/tools/index.js)\<close>

definition TOOL_ALIASES :: "(string \<times> string) list" where
  "TOOL_ALIASES =
     [(''bash'', ''shell''), (''shell'', ''shell''), (''sh'', ''shell''), (''terminal'', ''shell''),
      (''grep'', ''workspace_search''), (''search'', ''workspace_search''),
      (''find'', ''workspace_search''),
      (''websearch'', ''web_search''), (''web_search'', ''web_search''),
      (''Web Search'', ''web_search''), (''WebSearch'', ''web_search''),
      (''web_fetch'', ''web_fetch''), (''webfetch'', ''web_fetch''),
      (''task'', ''fs_write''), (''write'', ''fs_write''), (''filewrite'', ''fs_write''),
      (''read'', ''fs_read''), (''fileread'', ''fs_read''),
      (''patch'', ''edit_patch''), (''edit'', ''edit_patch''),
      (''list'', ''workspace_list''), (''ls'', ''workspace_list''), (''dir'', ''workspace_list''),
      (''summary'', ''project_summary''), (''projectsummary'', ''project_summary''),
      (''overview'', ''project_summary''),
      (''reindex'', ''workspace_index_rebuild''), (''index'', ''workspace_index_rebuild''),
      (''scan'', ''workspace_index_rebuild''),
      (''history'', ''workspace_edit_history''), (''edits'', ''workspace_edit_history''),
      (''undo'', ''workspace_edit_revert''), (''revert'', ''workspace_edit_revert''),
      (''diff'', ''workspace_diff''),
      (''diffsummary'', ''workspace_diff_summary''), (''summarizediff'', ''workspace_diff_summary''),
      (''diffsum'', ''workspace_diff_summary''),
      (''symbol'', ''workspace_symbol_search''), (''symbols'', ''workspace_symbol_search''),
      (''findsymbol'', ''workspace_symbol_search''), (''symbolsearch'', ''workspace_symbol_search''),
      (''references'', ''workspace_symbol_references''), (''ref'', ''workspace_symbol_references''),
      (''findreferences'', ''workspace_symbol_references''),
      (''usages'', ''workspace_symbol_references''),
      (''status'', ''workspace_git_status''), (''stage'', ''workspace_git_stage''),
      (''unstage'', ''workspace_git_unstage''), (''commit'', ''workspace_git_commit''),
      (''push'', ''workspace_git_push''), (''pull'', ''workspace_git_pull''),
      (''branches'', ''workspace_git_branches''), (''checkout'', ''workspace_git_checkout''),
      (''branch'', ''workspace_git_checkout''), (''stash'', ''workspace_git_stash''),
      (''review'', ''workspace_diff_review''), (''releasenotes'', ''workspace_release_notes''),
      (''diffstat'', ''workspace_diff_by_commit''), (''merge'', ''workspace_git_merge''),
      (''rebase'', ''workspace_git_rebase''), (''conflicts'', ''workspace_git_conflicts''),
      (''patchplan'', ''workspace_git_patch_plan''),
      (''changelog'', ''workspace_changelog_generate''),
      (''prtemplate'', ''workspace_pr_template_generate''),
      (''sandbox'', ''workspace_sandbox_sessions''), (''mcpsessions'', ''workspace_sandbox_sessions''),
      (''mcpservers'', ''workspace_mcp_servers''),
      (''tests'', ''workspace_test_summary''), (''testrun'', ''workspace_test_run''),
      (''runtests'', ''workspace_test_run''), (''testsummary'', ''workspace_test_summary''),
      (''testhistory'', ''workspace_test_history'')]"

text \<open>
  \<open>TOOL_ALIASES[k]\<close>. A key that the table lacks gives \<open>undefined\<close>, or a property
  that every object inherits, which is no key of the registry: in both cases the lookup
  in the registry that follows finds nothing.
\<close>

definition aliasTarget :: "string \<Rightarrow> string option" where
  "aliasTarget k = map_of TOOL_ALIASES k"

text \<open>
  A handler is called with the call it serves and the context, and returns a value or
  raises one (a promise that it returns is awaited: its value, or its rejection raised).
\<close>

datatype handler_result = Returns json | Throws json

record tool =
  handler :: "json \<Rightarrow> json \<Rightarrow> handler_result"
  options :: json

record lower_tool = tool +
  original :: string

text \<open>The two module-level maps.\<close>

record tools =
  registry :: "(string \<times> tool) list"
  registryLowercase :: "(string \<times> lower_tool) list"

definition coerceString :: "platform \<Rightarrow> json \<Rightarrow> string" where
  "coerceString pf v =
     (if nullish v then []
      else case v of JStr s \<Rightarrow> s | _ \<Rightarrow> JSON_stringify_indented pf v)"

text \<open>The result of a handler, normalised: \<open>{ok, status, content, metadata}\<close>.\<close>

record formatted =
  f_ok :: json
  f_status :: json
  f_content :: string
  f_metadata :: json

definition normalizeHandlerResult :: "platform \<Rightarrow> json \<Rightarrow> formatted" where
  "normalizeHandlerResult pf result =
     (case result of
        JStr s \<Rightarrow> \<lparr>f_ok = JBool True, f_status = JNum 200, f_content = s, f_metadata = JObj []\<rparr>
      | _ \<Rightarrow>
        if nullish result
        then \<lparr>f_ok = JBool True, f_status = JNum 200, f_content = [], f_metadata = JObj []\<rparr>
        else
          let ok = coalesce (getProp result ''ok'') (JBool True);
              status = coalesce (getProp result ''status'') (if truthy ok then JNum 200 else JNum 500);
              content = coerceString pf
                (coalesce (coalesce (coalesce (getProp result ''content'') (getProp result ''output''))
                   (getProp result ''data'')) (JStr []));
              metadata = coalesce (getProp result ''metadata'') (JObj [])
          in \<lparr>f_ok = ok, f_status = status, f_content = content, f_metadata = metadata\<rparr>)"

text \<open>
  \<open>parseArguments\<close> of the registry: a string that is not blank is parsed, anything
  else, and a string that does not parse, gives \<open>{}\<close>.
\<close>

definition tools_parseArguments :: "platform \<Rightarrow> json \<Rightarrow> json" where
  "tools_parseArguments pf call =
     (case getProp (getProp call ''function'') ''arguments'' of
        JStr raw \<Rightarrow>
          if list_all (\<lambda>c. c \<in> set whiteSpace) raw then JObj []
          else (case JSON_parse pf raw of Some v \<Rightarrow> v | None \<Rightarrow> JObj [])
      | _ \<Rightarrow> JObj [])"

record normalised_call =
  call_id :: json
  call_name :: json
  call_arguments :: json
  call_raw :: json

definition normaliseToolCall :: "platform \<Rightarrow> int \<Rightarrow> json \<Rightarrow> normalised_call" where
  "normaliseToolCall pf now call =
     (let name = toolNameOf call;
          id = coalesce (getProp call ''id'')
                 (JStr (jsToString (coalesce name (JStr ''tool'')) @ ''_'' @ showInt now))
      in \<lparr>call_id = id, call_name = name, call_arguments = tools_parseArguments pf call,
           call_raw = call\<rparr>)"

text \<open>\<open>registerTool\<close>, for a string name and a function handler.\<close>

definition registerTool :: "string \<Rightarrow> (json \<Rightarrow> json \<Rightarrow> handler_result) \<Rightarrow> json \<Rightarrow> tools \<Rightarrow> js_error + tools" where
  "registerTool name h opts ts =
     (if name = [] then Inl (Error ''Tool name must be a non-empty string.'')
      else Inr
        \<lparr>registry = AList.update name \<lparr>handler = h, options = opts\<rparr> (registry ts),
          registryLowercase =
            AList.update (toLowerCase name) \<lparr>handler = h, options = opts, original = name\<rparr>
              (registryLowercase ts)\<rparr>)"

text \<open>\<open>registry.get(name)\<close>: the keys of the map are strings.\<close>

definition registryGet :: "tools \<Rightarrow> json \<Rightarrow> tool option" where
  "registryGet ts name = (case name of JStr s \<Rightarrow> map_of (registry ts) s | _ \<Rightarrow> None)"

definition hasTool :: "tools \<Rightarrow> json \<Rightarrow> bool" where
  "hasTool ts name = (registryGet ts name \<noteq> None)"

text \<open>
  \<open>getTool\<close>. \<open>name.toLowerCase()\<close> raises a TypeError for a truthy name that is
  not a string.
\<close>

definition getTool :: "tools \<Rightarrow> json \<Rightarrow> js_error + tool option" where
  "getTool ts name =
     (if \<not> truthy name then Inr None
      else case registryGet ts name of
        Some direct \<Rightarrow> Inr (Some direct)
      | None \<Rightarrow>
          (case name of
             JStr s \<Rightarrow>
               (case map_of (registryLowercase ts) (toLowerCase s) of
                  Some lower \<Rightarrow> Inr (map_of (registry ts) (original lower))
                | None \<Rightarrow>
                    (case aliasTarget (toLowerCase s) of
                       Some target \<Rightarrow> Inr (map_of (registry ts) target)
                     | None \<Rightarrow> Inr None))
           | _ \<Rightarrow> Inl (TypeError ''name.toLowerCase is not a function'')))"

definition listTools :: "tools \<Rightarrow> string list" where
  "listTools ts = map fst (registry ts)"

text \<open>The tool result that \<open>executeToolCall\<close> returns; \<open>r_error\<close> is absent but on a failure.\<close>

record tool_result =
  r_id :: json
  r_name :: json
  r_arguments :: json
  r_ok :: json
  r_status :: json
  r_content :: string
  r_metadata :: json
  r_error :: "json option"

text \<open>The own enumerable properties that an object spread copies.\<close>

fun ownEntries :: "json \<Rightarrow> (string \<times> json) list" where
  "ownEntries (JObj kvs) = kvs"
| "ownEntries (JArr xs) = zip (map showNat [0..<length xs]) xs"
| "ownEntries (JStr s) = zip (map showNat [0..<length s]) (map (\<lambda>c. JStr [c]) s)"
| "ownEntries v = []"

text \<open>
  The two lookups that follow a miss of \<open>registry.get(normalisedCall.name)\<close>, for a
  name that is a string: the alias table first, then the lowercase map. The result is
  the entry found, if any, and the name of the call, rewritten when an entry is found.
\<close>

definition resolveByAlias :: "tools \<Rightarrow> string \<Rightarrow> tool option \<times> string" where
  "resolveByAlias ts name =
     (case aliasTarget (toLowerCase name) of
        None \<Rightarrow> (None, name)
      | Some target \<Rightarrow>
          (case map_of (registry ts) target of
             None \<Rightarrow> (None, name)
           | Some t \<Rightarrow> (Some t, target)))"

definition resolveByLowercase :: "tools \<Rightarrow> string \<Rightarrow> tool option \<times> string" where
  "resolveByLowercase ts name =
     (case map_of (registryLowercase ts) (toLowerCase name) of
        None \<Rightarrow> (None, name)
      | Some lowerEntry \<Rightarrow> (map_of (registry ts) (original lowerEntry), original lowerEntry))"

text \<open>
  The resolution at the head of \<open>executeToolCall\<close>.
  \<open>normalisedCall.name.toLowerCase()\<close> raises a TypeError when the name is missing
  (\<open>undefined\<close>, \<open>null\<close>) or is not a string: such a name is no key of the registry, so
  the first lookup has failed and the call is made.
\<close>

definition resolveTool :: "tools \<Rightarrow> json \<Rightarrow> js_error + (tool option \<times> json)" where
  "resolveTool ts name =
     (case registryGet ts name of
        Some t \<Rightarrow> Inr (Some t, name)
      | None \<Rightarrow>
          (case name of
             JStr s \<Rightarrow>
               (case resolveByAlias ts s of
                  (Some t, s1) \<Rightarrow> Inr (Some t, JStr s1)
                | (None, s1) \<Rightarrow>
                    (case resolveByLowercase ts s1 of (r, s2) \<Rightarrow> Inr (r, JStr s2)))
           | _ \<Rightarrow> Inl (TypeError ''Cannot read properties of undefined (reading toLowerCase)'')))"

text \<open>
  \<open>executeToolCall(call, context)\<close>. \<open>Inl\<close> is an exception that leaves the function
  (the promise it returns is rejected). In the \<open>catch\<close> block, \<open>err.message\<close> raises
  a TypeError when the handler has raised \<open>null\<close> or \<open>undefined\<close>.
\<close>

definition executeToolCall :: "platform \<Rightarrow> int \<Rightarrow> tools \<Rightarrow> json \<Rightarrow> json \<Rightarrow> js_error + tool_result" where
  "executeToolCall pf now ts call context =
     (let nc = normaliseToolCall pf now call in
      case resolveTool ts (call_name nc) of
        Inl e \<Rightarrow> Inl e
      | Inr (None, name) \<Rightarrow>
          Inr \<lparr>r_id = call_id nc, r_name = name, r_arguments = call_arguments nc,
               r_ok = JBool False, r_status = JNum 404,
               r_content = coerceString pf
                 (JObj [(''error'', JStr ''tool_not_registered''), (''tool'', name),
                        (''input'', call_arguments nc)]),
               r_metadata = JObj [(''registered'', JBool False)],
               r_error = None\<rparr>
      | Inr (Some registered, name) \<Rightarrow>
          (case handler registered
                  (JObj [(''id'', call_id nc), (''name'', name), (''args'', call_arguments nc),
                         (''raw'', call_raw nc)])
                  context of
             Returns result \<Rightarrow>
               let fm = normalizeHandlerResult pf result in
               Inr \<lparr>r_id = call_id nc, r_name = name, r_arguments = call_arguments nc,
                    r_ok = f_ok fm, r_status = f_status fm, r_content = f_content fm,
                    r_metadata =
                      JObj (AList.update ''registered'' (JBool True)
                              (ownEntries (coalesce (f_metadata fm) (JObj [])))),
                    r_error = None\<rparr>
           | Throws err \<Rightarrow>
               if nullish err then Inl (TypeError ''Cannot read properties of null (reading message)'')
               else
                 Inr \<lparr>r_id = call_id nc, r_name = name, r_arguments = call_arguments nc,
                      r_ok = JBool False, r_status = JNum 500,
                      r_content = coerceString pf
                        (JObj [(''error'', JStr ''tool_execution_failed''), (''tool'', name),
                               (''message'', getProp err ''message'')]),
                      r_metadata = JObj [(''registered'', JBool True), (''error'', JBool True)],
                      r_error = Some err\<rparr>))"

section \<open>The shell tool (execution tools of src/tools)\<close>

text \<open>\<open>normaliseCwd\<close>; \<open>resolveWorkspacePath\<close> refuses what is not a string.\<close>

definition normaliseCwd :: "string \<Rightarrow> json \<Rightarrow> js_error + string" where
  "normaliseCwd workspaceRoot cwd =
     (if \<not> truthy cwd then Inr workspaceRoot
      else case cwd of
             JStr s \<Rightarrow> resolveWorkspacePath workspaceRoot s
           | _ \<Rightarrow> Inl (Error ''Path must be a non-empty string.''))"

text \<open>What the handler of \<open>shell\<close> hands to \<open>runProcess\<close>: the program, its arguments and the directory.\<close>

record spawn =
  spawnCommand :: string
  spawnArgs :: "string list"
  spawnCwd :: string

text \<open>
  The handler of the tool \<open>shell\<close>, from its arguments to the call of \<open>runProcess\<close>.
  The parameter \<open>args\<close> defaults to \<open>{}\<close> when \<open>undefined\<close>; reading a property of
  \<open>null\<close> raises a TypeError.
\<close>

definition shellSpawn :: "string \<Rightarrow> json \<Rightarrow> js_error + spawn" where
  "shellSpawn workspaceRoot args0 =
     (let args = (if args0 = JUndefined then JObj [] else args0) in
      if args = JNull then Inl (TypeError ''Cannot read properties of null'')
      else
        let command = coalesce (coalesce (coalesce (getProp args ''command'') (getProp args ''cmd''))
                                  (getProp args ''run'')) (getProp args ''input'');
            commandArgs = (case getProp args ''args'' of JArr xs \<Rightarrow> map jsToString xs | _ \<Rightarrow> [])
        in case normaliseCwd workspaceRoot (getProp args ''cwd'') of
             Inl e \<Rightarrow> Inl e
           | Inr cwd \<Rightarrow>
               (case command of
                  JStr s \<Rightarrow>
                    if trim s \<noteq> []
                    then Inr \<lparr>spawnCommand = ''bash'', spawnArgs = [''-lc'', s], spawnCwd = cwd\<rparr>
                    else (case getProp args ''args'' of
                            JStr a \<Rightarrow>
                              if trim a \<noteq> [] \<and> \<not> truthy command
                              then Inr \<lparr>spawnCommand = ''bash'', spawnArgs = [''-lc'', a], spawnCwd = cwd\<rparr>
                              else Inl (Error ''shell tool requires a command string or array.'')
                          | _ \<Rightarrow> Inl (Error ''shell tool requires a command string or array.''))
                | JArr (x # xs) \<Rightarrow>
                    Inr \<lparr>spawnCommand = jsToString x, spawnArgs = map jsToString xs @ commandArgs,
                         spawnCwd = cwd\<rparr>
                | _ \<Rightarrow>
                    (case getProp args ''args'' of
                       JStr a \<Rightarrow>
                         if trim a \<noteq> [] \<and> \<not> truthy command
                         then Inr \<lparr>spawnCommand = ''bash'', spawnArgs = [''-lc'', a], spawnCwd = cwd\<rparr>
                         else Inl (Error ''shell tool requires a command string or array.'')
                     | _ \<Rightarrow> Inl (Error ''shell tool requires a command string or array.''))))"

section \<open>MCP client (src/mcp/client.js)\<close>

text \<open>
  The promise that \<open>request\<close> returns is known by the id of its request. The
  \<open>pending\<close> map holds, for an id, the two functions that settle that promise;
  settling a promise that is settled already changes nothing.
\<close>

datatype promise = Pending | Fulfilled json | Rejected json

text \<open>
  The client object. \<open>process\<close> and \<open>readInterface\<close> say whether the field holds
  a handle or \<open>null\<close>; \<open>pending\<close> lists the keys of the map in insertion order;
  \<open>written\<close> are the payloads written to the child's standard input and \<open>emitted\<close>
  the events emitted, both in order.
\<close>

record mcp_client =
  server :: json
  process :: bool
  readInterface :: bool
  nextId :: nat
  pending :: "nat list"
  started :: bool
  closed :: bool
  promises :: "nat \<Rightarrow> promise option"
  written :: "json list"
  emitted :: "(string \<times> json) list"

definition McpClient :: "json \<Rightarrow> js_error + mcp_client" where
  "McpClient serverConfig =
     (if \<not> truthy serverConfig \<or> \<not> typeofObject serverConfig
      then Inl (Error ''McpClient requires a server configuration object.'')
      else Inr \<lparr>server = serverConfig, process = False, readInterface = False, nextId = 1,
                pending = [], started = False, closed = False, promises = (\<lambda>i. None),
                written = [], emitted = []\<rparr>)"

text \<open>The words \<open>MCP server "id"\<close> of the error messages.\<close>

definition serverLabel :: "mcp_client \<Rightarrow> string" where
  "serverLabel c =
     ''MCP server '' @ [CHR 0x22] @ jsToString (getProp (server c) ''id'') @ [CHR 0x22]"

definition settle :: "nat \<Rightarrow> promise \<Rightarrow> (nat \<Rightarrow> promise option) \<Rightarrow> (nat \<Rightarrow> promise option)" where
  "settle i outcome ps = (if ps i = Some Pending then ps(i \<mapsto> outcome) else ps)"

text \<open>
  \<open>normaliseError\<close>. An \<open>Error\<close> is the object of its \<open>message\<close>, \<open>code\<close> and
  \<open>data\<close>, which is also what the function builds from a plain object.
\<close>

definition normaliseError :: "json \<Rightarrow> json" where
  "normaliseError error =
     (case error of
        JObj kvs \<Rightarrow>
          JObj ([(''message'', coalesce (getProp error ''message'') (JStr ''MCP request failed''))]
                @ (if getProp error ''code'' \<noteq> JUndefined then [(''code'', getProp error ''code'')] else [])
                @ (if getProp error ''data'' \<noteq> JUndefined then [(''data'', getProp error ''data'')] else []))
      | JArr xs \<Rightarrow> JObj [(''message'', JStr ''MCP request failed'')]
      | JStr s \<Rightarrow> JObj [(''message'', JStr s)]
      | _ \<Rightarrow> JObj [(''message'', JStr ''MCP request failed'')])"

text \<open>
  \<open>request(method, params)\<close>. \<open>Inl\<close> is an exception raised by the call itself;
  \<open>Inr i\<close> is the promise of request \<open>i\<close>. \<open>wr\<close> is what writing to the child's
  input does: \<open>None\<close> when it succeeds, the error when it raises (it always does when
  there is no process).
\<close>

definition request :: "json option \<Rightarrow> string \<Rightarrow> json \<Rightarrow> mcp_client \<Rightarrow> (js_error + nat) \<times> mcp_client" where
  "request wr method params c =
     (if \<not> started c then (Inl (Error (serverLabel c @ '' is not started.'')), c)
      else if closed c then (Inl (Error (serverLabel c @ '' connection is closed.'')), c)
      else
        let i = nextId c;
            payload = JObj [(''jsonrpc'', JStr ''2.0''), (''id'', JNum (int i)),
                            (''method'', JStr method), (''params'', params)];
            c1 = c\<lparr>nextId := i + 1,
                   promises := (promises c)(i \<mapsto> Pending),
                   pending := (if i \<in> set (pending c) then pending c else pending c @ [i])\<rparr>;
            failure = (if \<not> process c1
                       then Some (JObj [(''message'', JStr ''Cannot read properties of null (reading stdin)'')])
                       else wr)
        in case failure of
             None \<Rightarrow> (Inr i, c1\<lparr>written := written c1 @ [payload]\<rparr>)
           | Some err \<Rightarrow>
               (Inr i, c1\<lparr>pending := removeAll i (pending c1),
                           promises := settle i (Rejected err) (promises c1)\<rparr>))"

text \<open>\<open>Object.prototype.hasOwnProperty.call(message, k)\<close>, for an object or an array.\<close>

fun hasOwn :: "json \<Rightarrow> string \<Rightarrow> bool" where
  "hasOwn (JObj kvs) k = (k \<in> fst ` set kvs)"
| "hasOwn v k = False"

text \<open>\<open>this.pending.get(message.id)\<close>: the keys of the map are the request numbers.\<close>

fun pendingKey :: "nat list \<Rightarrow> json \<Rightarrow> nat option" where
  "pendingKey ps (JNum n) = (if 0 \<le> n \<and> nat n \<in> set ps then Some (nat n) else None)"
| "pendingKey ps v = None"

definition handleMessage :: "json \<Rightarrow> mcp_client \<Rightarrow> mcp_client" where
  "handleMessage message c =
     (if message = JNull \<or> \<not> typeofObject message then c
      else if hasOwn message ''id'' then
        (case pendingKey (pending c) (getProp message ''id'') of
           None \<Rightarrow> c
         | Some i \<Rightarrow>
             let c1 = c\<lparr>pending := removeAll i (pending c)\<rparr> in
             if hasOwn message ''error'' \<and> truthy (getProp message ''error'')
             then c1\<lparr>promises := settle i (Rejected (normaliseError (getProp message ''error''))) (promises c1)\<rparr>
             else c1\<lparr>promises := settle i (Fulfilled (getProp message ''result'')) (promises c1)\<rparr>)
      else c\<lparr>emitted := emitted c @ [(''notification'', message)]\<rparr>)"

text \<open>\<open>new Error("MCP connection closed")\<close>\<close>

definition connectionClosed :: json where
  "connectionClosed = JObj [(''message'', JStr ''MCP connection closed'')]"

text \<open>
  \<open>close(err)\<close>; \<open>err\<close> is \<open>undefined\<close> when the caller gives none. The function has
  no \<open>await\<close>: it runs to its end when called.
\<close>

definition close :: "json \<Rightarrow> mcp_client \<Rightarrow> mcp_client" where
  "close err c =
     (if closed c then c
      else
        let rejection = coalesce err connectionClosed in
        c\<lparr>closed := True,
          readInterface := False,
          process := False,
          promises := fold (\<lambda>i ps. settle i (Rejected rejection) ps) (pending c) (promises c),
          pending := [],
          emitted := emitted c @ [(''close'', if truthy err then normaliseError err else JNull)]\<rparr>)"

text \<open>
  \<open>initialize\<close> sends the \<open>initialize\<close> request and logs its failure, also when
  \<open>request\<close> raises.
\<close>

definition initialize :: "json option \<Rightarrow> mcp_client \<Rightarrow> mcp_client" where
  "initialize wr c =
     snd (request wr ''initialize''
            (JObj [(''capabilities'', JObj []),
                   (''clientInfo'', JObj [(''name'', JStr ''claude-code-proxy''),
                                          (''version'', JStr ''0.1.0'')])]) c)"

text \<open>
  \<open>start\<close>, up to its \<open>await\<close>: the child is spawned, the reader attached and the
  \<open>initialize\<close> request sent.
\<close>

definition start :: "json option \<Rightarrow> mcp_client \<Rightarrow> js_error + mcp_client" where
  "start wr c =
     (if started c then Inr c
      else if \<not> truthy (getProp (server c) ''command'')
      then Inl (Error (serverLabel c @ '' is missing a command.''))
      else Inr (initialize wr (c\<lparr>process := True, readInterface := True, started := True\<rparr>)))"

definition notify :: "json option \<Rightarrow> string \<Rightarrow> json \<Rightarrow> mcp_client \<Rightarrow> mcp_client" where
  "notify wr method params c =
     (if \<not> started c \<or> closed c then c
      else case (if \<not> process c then Some JNull else wr) of
             None \<Rightarrow> c\<lparr>written := written c @
                          [JObj [(''jsonrpc'', JStr ''2.0''), (''method'', JStr method),
                                 (''params'', params)]]\<rparr>
           | Some err \<Rightarrow> c)"

text \<open>
  What can happen to a client: the calls of its methods and the events of its child
  (a line of output is a \<open>HandleMessage\<close>, an exit or an error of the child a \<open>Close\<close>).
\<close>

datatype mcp_event =
    Start "json option"
  | Request "json option" string json
  | Notify "json option" string json
  | HandleMessage json
  | Close json

fun step :: "mcp_client \<Rightarrow> mcp_event \<Rightarrow> mcp_client" where
  "step c (Start wr) = (case start wr c of Inl e \<Rightarrow> c | Inr c' \<Rightarrow> c')"
| "step c (Request wr method params) = snd (request wr method params c)"
| "step c (Notify wr method params) = notify wr method params c"
| "step c (HandleMessage message) = handleMessage message c"
| "step c (Close err) = close err c"

definition run :: "mcp_client \<Rightarrow> mcp_event list \<Rightarrow> mcp_client" where
  "run c evs = foldl step c evs"

text \<open>
  Two properties of a client. \<open>pendingInv\<close> holds of every client that events have
  led to: a closed client has no pending request, and the promise of a pending request
  is not settled. \<open>shut\<close> is the state that \<open>close\<close> leaves.
\<close>

definition pendingInv :: "mcp_client \<Rightarrow> bool" where
  "pendingInv c \<longleftrightarrow>
     (closed c \<longrightarrow> pending c = []) \<and> (\<forall>i \<in> set (pending c). promises c i = Some Pending)"

definition shut :: "mcp_client \<Rightarrow> bool" where
  "shut c \<longleftrightarrow> closed c \<and> pending c = []"

section \<open>The fields of the cache key, as the specification lists them\<close>

definition cacheKeyFields :: "string list" where
  "cacheKeyFields = [''model'', ''input'', ''messages'', ''tools'', ''tool_choice'',
                     ''temperature'', ''top_p'', ''max_tokens'']"

section \<open>Sample values\<close>

text \<open>
  Concrete values on which the theorems below are instantiated. The sample platform
  parses two arguments strings, \<open>{"command":"rm -rf /"}\<close> and \<open>{"args":"rm -rf /"}\<close>,
  prints a value by its conversion to a string and takes the text itself as its digest.
\<close>

definition quoted :: "string \<Rightarrow> string" where
  "quoted s = [CHR 0x22] @ s @ [CHR 0x22]"

definition sampleArguments :: string where
  "sampleArguments = ''{'' @ quoted ''command'' @ '':'' @ quoted ''rm -rf /'' @ ''}''"

definition sampleArgsString :: string where
  "sampleArgsString = ''{'' @ quoted ''args'' @ '':'' @ quoted ''rm -rf /'' @ ''}''"

definition samplePlatform :: platform where
  "samplePlatform =
     \<lparr>JSON_stringify = jsToString,
      JSON_stringify_indented = jsToString,
      JSON_parse = map_of [(sampleArguments, JObj [(''command'', JStr ''rm -rf /'')]),
                           (sampleArgsString, JObj [(''args'', JStr ''rm -rf /'')])],
      sha256_hex = (\<lambda>s. s)\<rparr>"

definition sampleEntry :: entry where
  "sampleEntry = \<lparr>val = JStr ''cached'', createdAt = 0, expiresAt = Some 1000\<rparr>"

definition disabledCache :: cache where
  "disabledCache = (PromptCache (JObj [(''enabled'', JBool False)]))\<lparr>store := [(''k1'', sampleEntry)]\<rparr>"

definition sampleOptions :: json where
  "sampleOptions = JObj [(''enabled'', JBool True), (''maxEntries'', JNum 2), (''ttlMs'', JNum 1000)]"

definition sampleCache :: cache where
  "sampleCache = PromptCache sampleOptions"

definition samplePayload :: json where
  "samplePayload = JObj [(''model'', JStr ''m''),
                         (''messages'', JArr [JObj [(''role'', JStr ''user''), (''content'', JStr ''hello'')]])]"

text \<open>Two payloads that differ in the order of their keys and outside the key fields.\<close>

definition payloadA :: json where
  "payloadA = JObj [(''model'', JStr ''m''),
                    (''messages'', JArr [JObj [(''role'', JStr ''user''), (''content'', JStr ''hello'')]]),
                    (''stream'', JBool True), (''session_id'', JStr ''s1'')]"

definition payloadB :: json where
  "payloadB = JObj [(''session_id'', JStr ''s2''),
                    (''messages'', JArr [JObj [(''content'', JStr ''hello''), (''name'', JUndefined), (''role'', JStr ''user'')]]),
                    (''model'', JStr ''m''), (''temperature'', JUndefined)]"

text \<open>A terminal answer, an answer that asks for tools, and three variations.\<close>

definition choiceResponse :: "(string \<times> json) list \<Rightarrow> (string \<times> json) list \<Rightarrow> json" where
  "choiceResponse outer choice = JObj (outer @ [(''json'', JObj [(''choices'', JArr [JObj choice])])])"

definition terminalResponse :: json where
  "terminalResponse =
     choiceResponse [(''ok'', JBool True), (''status'', JNum 200)]
       [(''finish_reason'', JStr ''stop''), (''message'', JObj [(''content'', JStr ''hi'')])]"

definition toolUseResponse :: json where
  "toolUseResponse =
     choiceResponse [(''ok'', JBool True), (''status'', JNum 200)]
       [(''message'', JObj [(''tool_calls'', JArr [JObj [(''id'', JStr ''t1'')]])])]"

definition finishToolCallsResponse :: json where
  "finishToolCallsResponse =
     choiceResponse [(''ok'', JBool True), (''status'', JNum 200)]
       [(''finish_reason'', JStr ''tool_calls''), (''message'', JObj [(''content'', JStr ''hi'')])]"

definition noBodyResponse :: json where
  "noBodyResponse = JObj [(''ok'', JBool True), (''status'', JNum 200)]"

definition noStatusResponse :: json where
  "noStatusResponse =
     choiceResponse [(''ok'', JBool True)] [(''message'', JObj [(''tool_calls'', JArr [])])]"

text \<open>
  The cache after three writes, and two sequences of three writes: one made within three
  milliseconds, one whose last write comes five seconds after the others.
\<close>

definition fullCache :: cache where
  "fullCache = runOps samplePlatform (PromptCache sampleOptions)
     [StoreResponse (JStr ''k1'') terminalResponse 0, StoreResponse (JStr ''k2'') terminalResponse 1,
      StoreResponse (JStr ''k3'') terminalResponse 2]"

definition promptWrites :: "(json \<times> json \<times> int) list" where
  "promptWrites = [(JStr ''k1'', terminalResponse, 0), (JStr ''k2'', terminalResponse, 1),
                   (JStr ''k3'', terminalResponse, 2)]"

definition lateWrites :: "(json \<times> json \<times> int) list" where
  "lateWrites = [(JStr ''k1'', terminalResponse, 0), (JStr ''k2'', terminalResponse, 1),
                 (JStr ''k3'', terminalResponse, 5000)]"

definition sampleConfig :: policy_config where
  "sampleConfig =
     \<lparr>disallowedTools = policyDisallowedTools (Some ''web_fetch, ,python_exec''),
      maxToolCallsPerTurn = 12, allowPush = False, allowPull = True, allowCommit = True\<rparr>"

text \<open>A tool call as the upstream sends it, the arguments being any value.\<close>

definition toolCall :: "string \<Rightarrow> json \<Rightarrow> json" where
  "toolCall name arguments =
     JObj [(''id'', JStr ''call_1''), (''type'', JStr ''function''),
           (''function'', JObj [(''name'', JStr name), (''arguments'', arguments)])]"

text \<open>
  A registry with the two tools \<open>workspace_search\<close> and \<open>Grep\<close>, as two calls of
  \<open>registerTool\<close> build it (lemma \<open>grepTools_registered\<close>), and one command for each
  entry of the shell blocklist as the specification lists them.
\<close>

definition searchHandler :: "json \<Rightarrow> json \<Rightarrow> handler_result" where
  "searchHandler call context = Returns (JStr ''from workspace_search'')"

definition grepHandler :: "json \<Rightarrow> json \<Rightarrow> handler_result" where
  "grepHandler call context = Returns (JStr ''from Grep'')"

definition noTools :: tools where
  "noTools = \<lparr>registry = [], registryLowercase = []\<rparr>"

definition grepTools :: tools where
  "grepTools =
     \<lparr>registry = [(''workspace_search'', \<lparr>handler = searchHandler, options = JObj []\<rparr>),
                  (''Grep'', \<lparr>handler = grepHandler, options = JObj []\<rparr>)],
      registryLowercase =
        [(''workspace_search'', \<lparr>handler = searchHandler, options = JObj [], original = ''workspace_search''\<rparr>),
         (''grep'', \<lparr>handler = grepHandler, options = JObj [], original = ''Grep''\<rparr>)]\<rparr>"

definition blocklistExamples :: "string list" where
  "blocklistExamples = [''rm -rf /'', ''shutdown'', ''reboot'', ''systemctl stop'', ''mkfs'',
                        ''dd if=/dev/'', '':(){:|:&};:'', ''chown -R root'']"

text \<open>
  A registry that holds the tool \<open>shell\<close>. Its handler stands for the one of the source
  with a \<open>runProcess\<close> that runs nothing and answers with the command line it is given:
  the content of the tool result is the command that the real handler spawns.
\<close>

definition echoShellHandler :: "json \<Rightarrow> json \<Rightarrow> handler_result" where
  "echoShellHandler call context =
     (case shellSpawn ''/srv/ws'' (getProp call ''args'') of
        Inl (Error m) \<Rightarrow> Throws (JObj [(''message'', JStr m)])
      | Inl (TypeError m) \<Rightarrow> Throws (JObj [(''message'', JStr m)])
      | Inr sp \<Rightarrow> Returns (JObj [(''ok'', JBool True),
                                  (''content'', JStr (joinStrings '' '' (spawnCommand sp # spawnArgs sp)))]))"

definition shellTools :: tools where
  "shellTools =
     \<lparr>registry = [(''shell'', \<lparr>handler = echoShellHandler, options = JObj [(''category'', JStr ''execution'')]\<rparr>)],
      registryLowercase =
        [(''shell'', \<lparr>handler = echoShellHandler, options = JObj [(''category'', JStr ''execution'')],
                      original = ''shell''\<rparr>)]\<rparr>"

text \<open>
  A server, the client that the constructor makes for it, a history (the client is started,
  which sends request 1, and a second request is sent), and an answer to request 2.
\<close>

definition sampleServer :: json where
  "sampleServer = JObj [(''id'', JStr ''demo''), (''command'', JStr ''./stub_server'')]"

definition sampleClient :: mcp_client where
  "sampleClient =
     \<lparr>server = sampleServer, process = False, readInterface = False, nextId = 1,
      pending = [], started = False, closed = False, promises = (\<lambda>i. None),
      written = [], emitted = []\<rparr>"

definition sampleHistory :: "mcp_event list" where
  "sampleHistory = [Start None, Request None ''tools/list'' (JObj [])]"

definition lateReply :: json where
  "lateReply = JObj [(''jsonrpc'', JStr ''2.0''), (''id'', JNum 2), (''result'', JStr ''late'')]"

section \<open>Path confinement\<close>

lemma prefix_code_eval:
  "prefix [] ys = True"
  "prefix (x # xs) [] = False"
  "prefix (x # xs) (y # ys) = (x = y \<and> prefix xs ys)"
  by simp_all

lemma resolveWorkspacePath_startsWith:
  "resolveWorkspacePath root t = Inr p \<Longrightarrow> prefix root p"
  by (auto simp: resolveWorkspacePath_def Let_def split: if_splits)

text \<open>
  C1 (path confinement). \<open>resolveWorkspacePath\<close> is meant to return only paths inside the
  workspace root, and to raise otherwise. The code compares the characters of the
  resolved path with those of the root, so a sibling directory whose name starts with
  the root's name passes the test: with the root \<open>/srv/ws\<close>, both the relative path
  \<open>../ws-secrets/key\<close> and the absolute path \<open>/srv/ws-secrets/key\<close> are returned
  as \<open>/srv/ws-secrets/key\<close>, which is not within \<open>/srv/ws\<close>.
\<close>

theorem resolveWorkspacePath_escapes_root:
  "resolveWorkspacePath ''/srv/ws'' ''../ws-secrets/key'' = Inr ''/srv/ws-secrets/key''
   \<and> resolveWorkspacePath ''/srv/ws'' ''/srv/ws-secrets/key'' = Inr ''/srv/ws-secrets/key''
   \<and> \<not> within_root ''/srv/ws'' ''/srv/ws-secrets/key''"
  by (simp add: resolveWorkspacePath_def path_resolve_def within_root_def path_segments_def)


section \<open>The prompt cache\<close>

lemma evictOldest_drop: "evictOldest m st = drop (length st - m) st"
proof (induction m st rule: evictOldest.induct)
  case (1 m st)
  show ?case
  proof (cases "length st > m")
    case True
    then have "evictOldest m st = evictOldest m (tl st)" by (subst evictOldest.simps) simp
    also have "\<dots> = drop (length (tl st) - m) (tl st)" using 1 True by simp
    also have "\<dots> = drop (length st - m) st" using True by (cases st) (simp_all add: Suc_diff_le)
    finally show ?thesis .
  next
    case False
    then show ?thesis by (subst evictOldest.simps) simp
  qed
qed

lemma update_fresh: "k \<notin> fst ` set al \<Longrightarrow> AList.update k v al = al @ [(k, v)]"
  by (induction al) auto

lemma delete_if: "(if k \<in> fst ` set al then AList.delete k al else al) = AList.delete k al"
  by (simp add: AList.delete_id)

lemma store_step:
  "AList.update k e (if k \<in> fst ` set al then AList.delete k al else al) = AList.delete k al @ [(k, e)]"
  by (simp only: delete_if) (rule update_fresh, simp add: AList.delete_eq image_iff split_beta)

lemma map_of_kept_last:
  assumes "k \<notin> fst ` set al" "0 < m"
  shows "map_of (evictOldest m (al @ [(k, e)])) k = Some e"
proof -
  have le: "length (al @ [(k, e)]) - m \<le> length al" using assms(2) by simp
  have "evictOldest m (al @ [(k, e)]) = drop (length (al @ [(k, e)]) - m) al @ [(k, e)]"
    unfolding evictOldest_drop using le by simp
  moreover have "k \<notin> fst ` set (drop (length (al @ [(k, e)]) - m) al)"
    using assms(1) set_drop_subset by fastforce
  ultimately show ?thesis
    by (simp add: map_add_Some_iff map_of_eq_None_iff)
qed

lemma PromptCache_enabled:
  "enabled (PromptCache opts) \<longleftrightarrow> getProp opts ''enabled'' = JBool True"
  by (simp add: PromptCache_def)

lemma PromptCache_maxEntries: "0 < maxEntries (PromptCache opts)"
  by (cases "getProp opts ''maxEntries''") (simp_all add: PromptCache_def)

lemma PromptCache_ttlMs: "0 < ttlMs (PromptCache opts)"
  by (cases "getProp opts ''ttlMs''") (simp_all add: PromptCache_def)

subsection \<open>Admission\<close>

lemma shouldCacheResponse_iff:
  "shouldCacheResponse r \<longleftrightarrow>
     getProp r ''ok'' = JBool True
   \<and> truthy (getProp r ''json'')
   \<and> \<not> isNumberOtherThan 200 (getProp r ''status'')
   \<and> truthy (firstChoice r)
   \<and> getProp (firstChoice r) ''finish_reason'' \<noteq> JStr ''tool_calls''
   \<and> \<not> nonEmptyArray (getProp (coalesce (getProp (firstChoice r) ''message'') (JObj [])) ''tool_calls'')"
proof -
  have "getProp r ''ok'' = JBool True \<Longrightarrow> truthy r"
    by (cases r) simp_all
  then show ?thesis
    by (auto simp: shouldCacheResponse_def Let_def)
qed

lemma storeResponse_None:
  "fst (storeResponse pf now c pk r) = None \<Longrightarrow> snd (storeResponse pf now c pk r) = c"
  by (auto simp: storeResponse_def Let_def split: if_splits option.splits)

lemma storeResponse_admits_iff:
  "fst (storeResponse pf now c pk r) \<noteq> None \<longleftrightarrow>
     enabled c \<and> shouldCacheResponse r \<and> keyOf pf c pk \<noteq> None"
  by (auto simp: storeResponse_def Let_def split: option.splits)

lemma storeResponse_holds:
  assumes "fst (storeResponse pf now c pk r) = Some k" "0 < maxEntries c"
  shows "map_option val (map_of (store (snd (storeResponse pf now c pk r))) k) = Some r"
proof -
  from assms(1) have en: "enabled c" and sc: "shouldCacheResponse r" and key: "keyOf pf c pk = Some k"
    by (auto simp: storeResponse_def Let_def split: if_splits option.splits)
  have m: "maxEntries (pruneExpired now c) = maxEntries c"
    by (simp add: pruneExpired_def)
  have notin: "k \<notin> fst ` set (AList.delete k (store (pruneExpired now c)))"
    by (simp add: AList.delete_eq image_iff split_beta)
  show ?thesis
    using en sc key
    by (simp add: storeResponse_def Let_def store_step m map_of_kept_last [OF notin assms(2)]
          cloneValue_def)
qed

text \<open>
  C2, as the claim states it, fails in both directions. A response with \<open>ok\<close>, status
  200 and a first message without any tool calls is turned away when its first choice
  has the finish reason \<open>tool_calls\<close>, and when it has no body at all; a response
  with no status and an empty \<open>tool_calls\<close> list in its first message is admitted.
\<close>

theorem storeResponse_admission_counterexample:
  "storeResponse samplePlatform 0 sampleCache (JStr ''k'') finishToolCallsResponse = (None, sampleCache)
   \<and> storeResponse samplePlatform 0 sampleCache (JStr ''k'') noBodyResponse = (None, sampleCache)
   \<and> fst (storeResponse samplePlatform 0 sampleCache (JStr ''k'') noStatusResponse) = Some ''k''"
  by (simp add: storeResponse_def shouldCacheResponse_def firstChoice_def coalesce_def keyOf_def
        finishToolCallsResponse_def noBodyResponse_def noStatusResponse_def choiceResponse_def
        sampleCache_def sampleOptions_def PromptCache_def Let_def)

text \<open>
  C2, amended. \<open>storeResponse\<close> admits a response (returns a key) exactly when the cache
  is enabled, the payload or key gives a non-empty key, and the response has \<open>ok\<close>
  equal to \<open>true\<close>, a truthy \<open>json\<close> body, a status that is not a number other
  than 200, a truthy first choice whose finish reason is not \<open>tool_calls\<close>, and no
  non-empty \<open>tool_calls\<close> array in the message of that choice. A response that is not
  admitted leaves the cache as it was; so does, in particular, every response whose first
  choice carries a non-empty tool-call list. An admitted response is held by the cache
  under the returned key (the size cap being positive, as the constructor makes it).
\<close>

theorem storeResponse_admission:
  "(fst (storeResponse pf now c pk r) \<noteq> None \<longleftrightarrow>
      enabled c \<and> keyOf pf c pk \<noteq> None
    \<and> getProp r ''ok'' = JBool True
    \<and> truthy (getProp r ''json'')
    \<and> \<not> isNumberOtherThan 200 (getProp r ''status'')
    \<and> truthy (firstChoice r)
    \<and> getProp (firstChoice r) ''finish_reason'' \<noteq> JStr ''tool_calls''
    \<and> \<not> nonEmptyArray (getProp (coalesce (getProp (firstChoice r) ''message'') (JObj [])) ''tool_calls''))
   \<and> (fst (storeResponse pf now c pk r) = None \<longrightarrow> snd (storeResponse pf now c pk r) = c)
   \<and> (nonEmptyArray (getProp (coalesce (getProp (firstChoice r) ''message'') (JObj [])) ''tool_calls'')
        \<longrightarrow> storeResponse pf now c pk r = (None, c))
   \<and> (\<forall>k. fst (storeResponse pf now c pk r) = Some k \<longrightarrow> 0 < maxEntries c \<longrightarrow>
          map_option val (map_of (store (snd (storeResponse pf now c pk r))) k) = Some r)"
proof (intro conjI allI impI)
  show "fst (storeResponse pf now c pk r) \<noteq> None \<longleftrightarrow>
      enabled c \<and> keyOf pf c pk \<noteq> None
    \<and> getProp r ''ok'' = JBool True
    \<and> truthy (getProp r ''json'')
    \<and> \<not> isNumberOtherThan 200 (getProp r ''status'')
    \<and> truthy (firstChoice r)
    \<and> getProp (firstChoice r) ''finish_reason'' \<noteq> JStr ''tool_calls''
    \<and> \<not> nonEmptyArray (getProp (coalesce (getProp (firstChoice r) ''message'') (JObj [])) ''tool_calls'')"
    unfolding storeResponse_admits_iff shouldCacheResponse_iff by blast
next
  assume "fst (storeResponse pf now c pk r) = None"
  then show "snd (storeResponse pf now c pk r) = c" by (rule storeResponse_None)
next
  assume "nonEmptyArray (getProp (coalesce (getProp (firstChoice r) ''message'') (JObj [])) ''tool_calls'')"
  then have "\<not> shouldCacheResponse r" by (simp add: shouldCacheResponse_iff)
  then show "storeResponse pf now c pk r = (None, c)" by (simp add: storeResponse_def)
next
  fix k
  assume "fst (storeResponse pf now c pk r) = Some k" "0 < maxEntries c"
  then show "map_option val (map_of (store (snd (storeResponse pf now c pk r))) k) = Some r"
    by (rule storeResponse_holds)
qed

theorem storeResponse_admission_witness:
  "fst (storeResponse samplePlatform 0 sampleCache (JStr ''k'') terminalResponse) = Some ''k''
   \<and> 0 < maxEntries sampleCache
   \<and> map_option val (map_of (store (snd (storeResponse samplePlatform 0 sampleCache (JStr ''k'') terminalResponse))) ''k'')
       = Some terminalResponse
   \<and> nonEmptyArray (getProp (coalesce (getProp (firstChoice toolUseResponse) ''message'') (JObj [])) ''tool_calls'')
   \<and> storeResponse samplePlatform 0 sampleCache (JStr ''k'') toolUseResponse = (None, sampleCache)"
proof -
  note terminal = storeResponse_admission
    [where pf = samplePlatform and now = 0 and c = sampleCache and pk = "JStr ''k''" and r = terminalResponse]
  note toolUse = storeResponse_admission
    [where pf = samplePlatform and now = 0 and c = sampleCache and pk = "JStr ''k''" and r = toolUseResponse]
  have cap: "0 < maxEntries sampleCache"
    by (simp add: sampleCache_def sampleOptions_def PromptCache_def)
  have "enabled sampleCache \<and> keyOf samplePlatform sampleCache (JStr ''k'') = Some ''k''"
    by (simp add: sampleCache_def sampleOptions_def PromptCache_def keyOf_def)
  moreover have "shouldCacheResponse terminalResponse"
    by (simp add: shouldCacheResponse_def firstChoice_def coalesce_def terminalResponse_def
          choiceResponse_def)
  ultimately have key: "fst (storeResponse samplePlatform 0 sampleCache (JStr ''k'') terminalResponse) = Some ''k''"
    by (simp add: storeResponse_def Let_def)
  have held: "map_option val (map_of (store (snd (storeResponse samplePlatform 0 sampleCache (JStr ''k'') terminalResponse))) ''k'')
       = Some terminalResponse"
    using terminal key cap by blast
  have calls: "nonEmptyArray (getProp (coalesce (getProp (firstChoice toolUseResponse) ''message'') (JObj [])) ''tool_calls'')"
    by (simp add: firstChoice_def coalesce_def toolUseResponse_def choiceResponse_def)
  have "storeResponse samplePlatform 0 sampleCache (JStr ''k'') toolUseResponse = (None, sampleCache)"
    using toolUse calls by blast
  with key cap held calls show ?thesis by blast
qed

subsection \<open>Least recently used\<close>

lemma evictOldest_short: "length xs \<le> n \<Longrightarrow> evictOldest n xs = xs"
  by (simp add: evictOldest_drop)

lemma evictOldest_append_long: "n \<le> length ys \<Longrightarrow> evictOldest n (xs @ ys) = evictOldest n ys"
  by (simp add: evictOldest_drop)

lemma length_evictOldest: "length (evictOldest n xs) = min n (length xs)"
  by (simp add: evictOldest_drop)

lemma map_evictOldest: "map f (evictOldest n xs) = evictOldest n (map f xs)"
  by (simp add: evictOldest_drop drop_map)

lemma length_removeAll_distinct:
  "distinct xs \<Longrightarrow> length xs \<le> Suc (length (removeAll k xs))"
  by (induction xs) auto

lemma evict_remove_evict:
  assumes "distinct xs" "0 < n"
  shows "evictOldest n (removeAll k (evictOldest n xs) @ [k]) = evictOldest n (removeAll k xs @ [k])"
proof (cases "length xs \<le> n")
  case True
  then show ?thesis by (simp add: evictOldest_short)
next
  case False
  define s where "s = drop (length xs - n) xs"
  define p where "p = take (length xs - n) xs"
  have xs: "xs = p @ s" by (simp add: p_def s_def)
  have ls: "length s = n" using False by (simp add: s_def)
  have "distinct s" using assms(1) by (simp add: s_def)
  then have "length s \<le> Suc (length (removeAll k s))" by (rule length_removeAll_distinct)
  then have long: "n \<le> length (removeAll k s @ [k])" using ls by simp
  have "evictOldest n (removeAll k xs @ [k]) = evictOldest n (removeAll k p @ (removeAll k s @ [k]))"
    by (subst xs) simp
  also have "\<dots> = evictOldest n (removeAll k s @ [k])"
    using long by (rule evictOldest_append_long)
  finally show ?thesis by (simp add: evictOldest_drop s_def)
qed

lemma keys_delete: "map fst (AList.delete k al) = removeAll k (map fst al)"
  by (induction al) auto

lemma storeResponse_Some:
  "fst (storeResponse pf t c pk r) = Some k \<longleftrightarrow>
     enabled c \<and> shouldCacheResponse r \<and> keyOf pf c pk = Some k"
  by (auto simp: storeResponse_def Let_def split: option.splits)

lemma storeResponse_store:
  assumes "fst (storeResponse pf t c pk r) = Some k"
  shows "store (snd (storeResponse pf t c pk r)) =
           evictOldest (maxEntries c)
             (AList.delete k (store (pruneExpired t c)) @
                [(k, \<lparr>val = cloneValue r, createdAt = t,
                      expiresAt = (if ttlMs c > 0 then Some (t + ttlMs c) else None)\<rparr>)])"
proof -
  have p: "maxEntries (pruneExpired t c) = maxEntries c" "ttlMs (pruneExpired t c) = ttlMs c"
    by (simp_all add: pruneExpired_def)
  show ?thesis
    using assms [unfolded storeResponse_Some]
    by (simp add: storeResponse_def Let_def store_step p)
qed

lemma storeResponse_keys:
  assumes "fst (storeResponse pf t c pk r) = Some k"
  shows "keysOf (snd (storeResponse pf t c pk r)) =
           evictOldest (maxEntries c) (removeAll k (keysOf (pruneExpired t c)) @ [k])"
  unfolding keysOf_def storeResponse_store [OF assms] map_evictOldest
  by (simp add: keys_delete)

lemma lookup_hit_keys:
  assumes "fst (lookup pf t c pk) = (Some k, Some e)"
  shows "keysOf (snd (lookup pf t c pk)) = removeAll k (keysOf (pruneExpired t c)) @ [k]"
proof -
  have notin: "k \<notin> fst ` set (AList.delete k (store (pruneExpired t c)))"
    by (simp add: AList.delete_eq image_iff split_beta)
  show ?thesis
    using assms
    by (auto simp: lookup_def Let_def keysOf_def update_fresh [OF notin] keys_delete
          split: if_splits option.splits)
qed

lemma params_pruneExpired:
  "enabled (pruneExpired t c) = enabled c" "maxEntries (pruneExpired t c) = maxEntries c"
  "ttlMs (pruneExpired t c) = ttlMs c"
  by (simp_all add: pruneExpired_def)

lemma params_storeResponse:
  "enabled (snd (storeResponse pf t c pk r)) = enabled c"
  "maxEntries (snd (storeResponse pf t c pk r)) = maxEntries c"
  "ttlMs (snd (storeResponse pf t c pk r)) = ttlMs c"
  by (simp_all add: storeResponse_def Let_def params_pruneExpired split: option.splits)

lemma params_lookup:
  "enabled (snd (lookup pf t c pk)) = enabled c"
  "maxEntries (snd (lookup pf t c pk)) = maxEntries c"
  "ttlMs (snd (lookup pf t c pk)) = ttlMs c"
  by (simp_all add: lookup_def Let_def params_pruneExpired split: option.splits)

lemma fetch_snd: "snd (fetch pf t c pk) = snd (lookup pf t c pk)"
  by (simp add: fetch_def split: prod.splits option.splits)

lemma cacheInv_pruneExpired: "cacheInv c \<Longrightarrow> cacheInv (pruneExpired t c)"
proof -
  assume inv: "cacheInv c"
  have "length (filter (\<lambda>(k, e). \<not> expired t e) (store c)) \<le> length (store c)"
    by (rule length_filter_le)
  also have "\<dots> \<le> maxEntries c"
    using inv by (simp add: cacheInv_def)
  finally have "length (filter (\<lambda>(k, e). \<not> expired t e) (store c)) \<le> maxEntries c" .
  moreover have "distinct (map fst (filter (\<lambda>(k, e). \<not> expired t e) (store c)))"
    using inv by (simp add: cacheInv_def keysOf_def distinct_map_filter)
  ultimately show ?thesis
    using inv by (auto simp: cacheInv_def keysOf_def pruneExpired_def intro: le_trans)
qed

lemma cacheInv_storeResponse: "cacheInv c \<Longrightarrow> cacheInv (snd (storeResponse pf t c pk r))"
proof (cases "fst (storeResponse pf t c pk r)")
  case None
  assume "cacheInv c"
  then show ?thesis using storeResponse_None [OF None] by simp
next
  case (Some k)
  assume inv: "cacheInv c"
  then have d: "distinct (keysOf (pruneExpired t c))"
    using cacheInv_pruneExpired by (simp add: cacheInv_def)
  have "distinct (removeAll k (keysOf (pruneExpired t c)) @ [k])"
    using d by (simp add: distinct_removeAll)
  then have "distinct (keysOf (snd (storeResponse pf t c pk r)))"
    unfolding storeResponse_keys [OF Some] evictOldest_drop by (rule distinct_drop)
  moreover have "length (store (snd (storeResponse pf t c pk r))) \<le> maxEntries c"
    unfolding storeResponse_store [OF Some] by (simp add: length_evictOldest)
  ultimately show ?thesis
    using inv by (simp add: cacheInv_def params_storeResponse)
qed

lemma length_delete_less:
  "k \<in> fst ` set al \<Longrightarrow> length (AList.delete k al) < length al"
  by (induction al) (auto simp: le_imp_less_Suc AList.length_delete_le)

lemma cacheInv_lookup: "cacheInv c \<Longrightarrow> cacheInv (snd (lookup pf t c pk))"
proof -
  assume inv: "cacheInv c"
  let ?c1 = "pruneExpired t c"
  have inv1: "cacheInv ?c1" using inv by (rule cacheInv_pruneExpired)
  have del: "\<And>k. cacheInv (?c1\<lparr>store := AList.delete k (store ?c1)\<rparr>)"
    using inv1 AList.length_delete_le [of _ "store ?c1"]
    by (auto simp: cacheInv_def keysOf_def keys_delete distinct_removeAll intro: le_trans)
  have upd: "\<And>k e. map_of (store ?c1) k = Some e \<Longrightarrow>
      cacheInv (?c1\<lparr>store := AList.update k e (AList.delete k (store ?c1))\<rparr>)"
  proof -
    fix k e
    assume "map_of (store ?c1) k = Some e"
    then have mem: "k \<in> fst ` set (store ?c1)"
      by (metis domI dom_map_of_conv_image_fst)
    have notin: "k \<notin> fst ` set (AList.delete k (store ?c1))"
      by (simp add: AList.delete_eq image_iff split_beta)
    have "length (AList.delete k (store ?c1) @ [(k, e)]) \<le> length (store ?c1)"
      using length_delete_less [OF mem] by simp
    then show "cacheInv (?c1\<lparr>store := AList.update k e (AList.delete k (store ?c1))\<rparr>)"
      using inv1
      by (simp add: cacheInv_def keysOf_def update_fresh [OF notin] keys_delete distinct_removeAll)
  qed
  show ?thesis
    using inv inv1 del upd
    by (auto simp: lookup_def Let_def split: option.splits)
qed

lemma cacheInv_applyOp: "cacheInv c \<Longrightarrow> cacheInv (applyOp pf c op)"
  by (cases op) (simp_all add: cacheInv_lookup cacheInv_storeResponse cacheInv_pruneExpired fetch_snd)

lemma cacheInv_runOps: "cacheInv c \<Longrightarrow> cacheInv (runOps pf c ops)"
  unfolding runOps_def by (induction ops arbitrary: c) (simp_all add: cacheInv_applyOp)

lemma cacheInv_new: "cacheInv (PromptCache opts)"
  using PromptCache_maxEntries [of opts]
  by (simp add: cacheInv_def keysOf_def) (simp add: PromptCache_def)

lemma pruneExpired_fresh: "freshAt c T \<Longrightarrow> t \<in> T \<Longrightarrow> pruneExpired t c = c"
proof -
  assume f: "freshAt c T" and t: "t \<in> T"
  have "filter (\<lambda>(k, e). \<not> expired t e) (store c) = store c"
    using f t by (intro filter_True) (auto simp: freshAt_def)
  then show ?thesis by (simp add: pruneExpired_def)
qed

lemma set_evictOldest: "set (evictOldest n xs) \<subseteq> set xs"
  by (simp add: evictOldest_drop set_drop_subset)

lemma set_delete: "set (AList.delete k al) \<subseteq> set al"
  by (auto simp: AList.delete_eq)

lemma freshAt_storeResponse:
  assumes "freshAt c T" "t \<in> T" "\<forall>t' \<in> T. t' < t + ttlMs c"
  shows "freshAt (snd (storeResponse pf t c pk r)) T"
proof (cases "fst (storeResponse pf t c pk r)")
  case None
  then show ?thesis using assms(1) storeResponse_None [OF None] by simp
next
  case (Some k)
  have ttl: "0 < ttlMs c" using assms(2,3) by fastforce
  let ?e = "\<lparr>val = cloneValue r, createdAt = t, expiresAt = Some (t + ttlMs c)\<rparr>"
  have new: "\<forall>t' \<in> T. \<not> expired t' ?e"
    using assms(3) by (auto simp: expired_def)
  have "set (store (snd (storeResponse pf t c pk r))) \<subseteq> set (store c) \<union> {(k, ?e)}"
    unfolding storeResponse_store [OF Some] pruneExpired_fresh [OF assms(1,2)]
    using set_evictOldest [of "maxEntries c" "AList.delete k (store c) @ [(k, ?e)]"]
      set_delete [of k "store c"] ttl
    by auto
  then show ?thesis
    using assms(1) new unfolding freshAt_def by blast
qed

lemma keyOf_enabled: "enabled c' = enabled c \<Longrightarrow> keyOf pf c' pk = keyOf pf c pk"
proof -
  assume "enabled c' = enabled c"
  then have "buildKey pf c' pk = buildKey pf c pk" by (simp add: buildKey_def)
  then show ?thesis by (cases pk) (simp_all add: keyOf_def)
qed

lemma removeAll_filter_notin:
  "removeAll k (filter (\<lambda>x. x \<notin> S) xs) = filter (\<lambda>x. x \<notin> insert k S) xs"
  by (induction xs) auto

lemma storeAll_snoc:
  "storeAll pf c (ws @ [(pk, r, t)]) = snd (storeResponse pf t (storeAll pf c ws) pk r)"
  by (simp add: storeAll_def)

lemma storeAll_invariants:
  assumes "freshAt c T" "\<forall>t \<in> T. \<forall>t' \<in> T. t' < t + ttlMs c" "timesOf ws \<subseteq> T"
  shows "freshAt (storeAll pf c ws) T \<and> enabled (storeAll pf c ws) = enabled c
       \<and> maxEntries (storeAll pf c ws) = maxEntries c \<and> ttlMs (storeAll pf c ws) = ttlMs c"
  using assms(3)
proof (induction ws rule: rev_induct)
  case Nil
  then show ?case using assms(1) by (simp add: storeAll_def)
next
  case (snoc w ws)
  obtain pk r t where w: "w = (pk, r, t)" by (cases w)
  have t: "t \<in> T" and sub: "timesOf ws \<subseteq> T"
    using snoc.prems by (auto simp: timesOf_def w)
  note IH = snoc.IH [OF sub]
  have "\<forall>t' \<in> T. t' < t + ttlMs (storeAll pf c ws)"
    using assms(2) t IH by simp
  then have "freshAt (snd (storeResponse pf t (storeAll pf c ws) pk r)) T"
    using IH t by (intro freshAt_storeResponse) simp_all
  then show ?case
    using IH by (simp add: w storeAll_snoc params_storeResponse)
qed

lemma writtenKeys_snoc:
  "writtenKeys pf c (ws @ [(pk, r, t)]) =
     writtenKeys pf c ws @ (case keyOf pf c pk of None \<Rightarrow> [] | Some k \<Rightarrow> [k])"
  by (simp add: writtenKeys_def List.map_filter_def split: option.splits)

lemma storeAll_keys:
  assumes en: "enabled c" and inv: "cacheInv c"
    and fresh: "freshAt c T" and window: "\<forall>t \<in> T. \<forall>t' \<in> T. t' < t + ttlMs c"
    and times: "timesOf ws \<subseteq> T"
    and adm: "admissible pf c ws"
    and dist: "distinct (writtenKeys pf c ws)"
  shows "keysOf (storeAll pf c ws) =
           evictOldest (maxEntries c)
             (filter (\<lambda>k. k \<notin> set (writtenKeys pf c ws)) (keysOf c) @ writtenKeys pf c ws)"
  using times adm dist
proof (induction ws rule: rev_induct)
  case Nil
  have "length (keysOf c) \<le> maxEntries c" using inv by (simp add: cacheInv_def keysOf_def)
  then show ?case
    by (simp add: storeAll_def writtenKeys_def List.map_filter_def evictOldest_short)
next
  case (snoc w ws)
  obtain pk r t where w: "w = (pk, r, t)" by (cases w)
  have t: "t \<in> T" and sub: "timesOf ws \<subseteq> T"
    using snoc.prems(1) by (auto simp: timesOf_def w)
  have adm': "admissible pf c ws" and r: "shouldCacheResponse r"
    and key: "keyOf pf c pk \<noteq> None"
    using snoc.prems(2) by (auto simp: admissible_def w)
  then obtain k where k: "keyOf pf c pk = Some k" by blast
  let ?ks = "writtenKeys pf c ws"
  have wk: "writtenKeys pf c (ws @ [w]) = ?ks @ [k]"
    by (simp add: w writtenKeys_snoc k)
  have dist': "distinct ?ks" and knew: "k \<notin> set ?ks"
    using snoc.prems(3) by (simp_all add: wk)
  let ?cj = "storeAll pf c ws"
  note I = storeAll_invariants [OF fresh window sub, of pf]
  have IH: "keysOf ?cj = evictOldest (maxEntries c) (filter (\<lambda>k. k \<notin> set ?ks) (keysOf c) @ ?ks)"
    using snoc.IH [OF sub adm' dist'] .
  have "keyOf pf ?cj pk = Some k"
    using I k keyOf_enabled [of ?cj c pf pk] by simp
  then have some: "fst (storeResponse pf t ?cj pk r) = Some k"
    using I en r by (simp add: storeResponse_Some)
  have prune: "pruneExpired t ?cj = ?cj"
    using I t by (intro pruneExpired_fresh [of _ T]) simp_all
  let ?X = "filter (\<lambda>k. k \<notin> set ?ks) (keysOf c) @ ?ks"
  have dX: "distinct ?X"
    using inv dist' by (auto simp: cacheInv_def)
  have n: "0 < maxEntries c" using inv by (simp add: cacheInv_def)
  have "keysOf (storeAll pf c (ws @ [w])) =
          evictOldest (maxEntries c) (removeAll k (evictOldest (maxEntries c) ?X) @ [k])"
    using storeResponse_keys [OF some] I by (simp add: w storeAll_snoc prune IH)
  also have "\<dots> = evictOldest (maxEntries c) (removeAll k ?X @ [k])"
    using dX n by (rule evict_remove_evict)
  also have "removeAll k ?X @ [k] =
      filter (\<lambda>x. x \<notin> set (?ks @ [k])) (keysOf c) @ (?ks @ [k])"
  proof -
    have a: "removeAll k ?ks = ?ks" using knew by simp
    have b: "removeAll k (filter (\<lambda>k. k \<notin> set ?ks) (keysOf c))
               = filter (\<lambda>x. x \<notin> set (?ks @ [k])) (keysOf c)"
      by (simp add: removeAll_filter_notin)
    show ?thesis by (simp only: removeAll_append a b append_assoc)
  qed
  finally show ?case by (simp only: wk)
qed

lemma evictOldest_tl: "length ks = Suc n \<Longrightarrow> evictOldest n (xs @ ks) = tl ks"
  by (cases ks) (simp_all add: evictOldest_drop)

lemma length_writtenKeys: "admissible pf c ws \<Longrightarrow> length (writtenKeys pf c ws) = length ws"
proof (induction ws rule: rev_induct)
  case Nil
  then show ?case by (simp add: writtenKeys_def List.map_filter_def)
next
  case (snoc w ws)
  obtain pk r t where w: "w = (pk, r, t)" by (cases w)
  from snoc.prems have "admissible pf c ws" and "keyOf pf c pk \<noteq> None"
    by (auto simp: admissible_def w)
  then show ?case using snoc.IH by (auto simp: w writtenKeys_snoc)
qed

lemma withinTtl_fresh:
  assumes "withinTtl c ws"
  shows "freshAt c (timesOf ws)" and "\<forall>t \<in> timesOf ws. \<forall>t' \<in> timesOf ws. t' < t + ttlMs c"
  using assms by (auto simp: withinTtl_def freshAt_def timesOf_def list_all_iff)

lemma storeAll_full:
  assumes "enabled c" "cacheInv c" "admissible pf c ws" "distinct (writtenKeys pf c ws)"
    "withinTtl c ws" "length ws = maxEntries c + 1"
  shows "keysOf (storeAll pf c ws) = tl (writtenKeys pf c ws)"
    and "length (store (storeAll pf c ws)) = maxEntries c"
proof -
  have len: "length (writtenKeys pf c ws) = Suc (maxEntries c)"
    using assms(3,6) by (simp add: length_writtenKeys)
  have "keysOf (storeAll pf c ws) =
          evictOldest (maxEntries c)
            (filter (\<lambda>k. k \<notin> set (writtenKeys pf c ws)) (keysOf c) @ writtenKeys pf c ws)"
    using assms(1,2) withinTtl_fresh [OF assms(5)] subset_refl assms(3,4)
    by (rule storeAll_keys)
  then show keys: "keysOf (storeAll pf c ws) = tl (writtenKeys pf c ws)"
    by (simp add: evictOldest_tl [OF len])
  have "length (store (storeAll pf c ws)) = length (keysOf (storeAll pf c ws))"
    by (simp add: keysOf_def)
  then show "length (store (storeAll pf c ws)) = maxEntries c"
    using len by (simp add: keys)
qed

text \<open>
  C9, as the claim states it, fails: with \<open>maxEntries = 2\<close> and \<open>ttlMs = 1000\<close>, three
  writes under distinct keys at the times 0, 1 and 5000 leave one entry, since the third
  write first removes the two expired ones.
\<close>

theorem lru_eviction_counterexample:
  "admissible samplePlatform sampleCache lateWrites
   \<and> distinct (writtenKeys samplePlatform sampleCache lateWrites)
   \<and> length lateWrites = maxEntries sampleCache + 1
   \<and> keysOf (storeAll samplePlatform sampleCache lateWrites) = [''k3'']
   \<and> length (store (storeAll samplePlatform sampleCache lateWrites)) \<noteq> maxEntries sampleCache"
proof -
  have sc: "shouldCacheResponse terminalResponse"
    by (simp add: shouldCacheResponse_def firstChoice_def coalesce_def terminalResponse_def
          choiceResponse_def)
  have cache: "sampleCache = \<lparr>enabled = True, maxEntries = 2, ttlMs = 1000, store = []\<rparr>"
    by (simp add: sampleCache_def sampleOptions_def PromptCache_def)
  have wk: "writtenKeys samplePlatform sampleCache lateWrites = [''k1'', ''k2'', ''k3'']"
    by (simp add: writtenKeys_def List.map_filter_def lateWrites_def keyOf_def)
  have st: "store (storeAll samplePlatform sampleCache lateWrites) =
      [(''k3'', \<lparr>val = terminalResponse, createdAt = 5000, expiresAt = Some 6000\<rparr>)]"
    by (simp add: storeAll_def lateWrites_def storeResponse_def sc cache keyOf_def Let_def
          pruneExpired_def expired_def evictOldest_drop cloneValue_def)
  have adm: "admissible samplePlatform sampleCache lateWrites"
    by (simp add: admissible_def lateWrites_def sc keyOf_def)
  have len: "length lateWrites = maxEntries sampleCache + 1"
    by (simp add: lateWrites_def cache)
  have keys: "keysOf (storeAll samplePlatform sampleCache lateWrites) = [''k3'']"
    by (simp add: keysOf_def st)
  have "maxEntries sampleCache = 2" by (simp add: cache)
  then have ne: "length (store (storeAll samplePlatform sampleCache lateWrites)) \<noteq> maxEntries sampleCache"
    by (simp add: st)
  show ?thesis
    using adm len keys ne by (simp add: wk)
qed

text \<open>
  C9, amended. Let \<open>c\<close> be a cache that any calls have led to from the constructor. It
  holds at most \<open>maxEntries\<close> entries (so it does after any \<open>storeResponse\<close>). A
  \<open>storeResponse\<close> that stores under key \<open>k\<close> leaves the keys that have not expired,
  without \<open>k\<close>, followed by \<open>k\<close>, cut from the head (the least recently used end) down
  to \<open>maxEntries\<close>; a lookup that hits \<open>k\<close> leaves the keys that have not expired,
  without \<open>k\<close>, followed by \<open>k\<close>. If the cache is enabled and \<open>maxEntries + 1\<close>
  admissible responses are written under distinct keys while no entry expires, exactly
  \<open>maxEntries\<close> entries remain: those of the last \<open>maxEntries\<close> writes, in the order
  written.
\<close>

theorem lru_eviction:
  assumes "c = runOps pf (PromptCache opts) ops"
  shows "length (store c) \<le> maxEntries c
       \<and> (\<forall>pk r t k. fst (storeResponse pf t c pk r) = Some k \<longrightarrow>
            keysOf (snd (storeResponse pf t c pk r))
              = evictOldest (maxEntries c) (removeAll k (keysOf (pruneExpired t c)) @ [k]))
       \<and> (\<forall>pk t k e. fst (lookup pf t c pk) = (Some k, Some e) \<longrightarrow>
            keysOf (snd (lookup pf t c pk)) = removeAll k (keysOf (pruneExpired t c)) @ [k])
       \<and> (enabled c \<and> admissible pf c ws \<and> distinct (writtenKeys pf c ws) \<and> withinTtl c ws
            \<and> length ws = maxEntries c + 1 \<longrightarrow>
            keysOf (storeAll pf c ws) = tl (writtenKeys pf c ws)
            \<and> length (store (storeAll pf c ws)) = maxEntries c)"
proof -
  have inv: "cacheInv c"
    unfolding assms by (intro cacheInv_runOps cacheInv_new)
  then have "length (store c) \<le> maxEntries c"
    by (simp add: cacheInv_def)
  then show ?thesis
    using storeResponse_keys lookup_hit_keys storeAll_full [OF _ inv]
    by blast
qed

theorem lru_eviction_witness:
  "sampleCache = runOps samplePlatform (PromptCache sampleOptions) []
   \<and> enabled sampleCache
   \<and> admissible samplePlatform sampleCache promptWrites
   \<and> distinct (writtenKeys samplePlatform sampleCache promptWrites)
   \<and> withinTtl sampleCache promptWrites
   \<and> length promptWrites = maxEntries sampleCache + 1
   \<and> keysOf (storeAll samplePlatform sampleCache promptWrites) = [''k2'', ''k3'']
   \<and> length (store (storeAll samplePlatform sampleCache promptWrites)) = maxEntries sampleCache
   \<and> fst (fst (lookup samplePlatform 3 fullCache (JStr ''k2''))) = Some ''k2''
   \<and> keysOf (snd (lookup samplePlatform 3 fullCache (JStr ''k2''))) = [''k3'', ''k2'']"
proof -
  have sc: "shouldCacheResponse terminalResponse"
    by (simp add: shouldCacheResponse_def firstChoice_def coalesce_def terminalResponse_def
          choiceResponse_def)
  have cache: "sampleCache = \<lparr>enabled = True, maxEntries = 2, ttlMs = 1000, store = []\<rparr>"
    by (simp add: sampleCache_def sampleOptions_def PromptCache_def)
  have reach: "sampleCache = runOps samplePlatform (PromptCache sampleOptions) []"
    by (simp add: runOps_def sampleCache_def)
  have en: "enabled sampleCache" by (simp add: cache)
  have wk: "writtenKeys samplePlatform sampleCache promptWrites = [''k1'', ''k2'', ''k3'']"
    by (simp add: writtenKeys_def List.map_filter_def promptWrites_def keyOf_def)
  have adm: "admissible samplePlatform sampleCache promptWrites"
    by (simp add: admissible_def promptWrites_def sc keyOf_def)
  have ttl: "withinTtl sampleCache promptWrites"
    by (simp add: withinTtl_def promptWrites_def cache)
  have len: "length promptWrites = maxEntries sampleCache + 1"
    by (simp add: promptWrites_def cache)
  have dist: "distinct (writtenKeys samplePlatform sampleCache promptWrites)"
    by (simp add: wk)
  note T = lru_eviction [OF reach, where ws = promptWrites]
  have full: "keysOf (storeAll samplePlatform sampleCache promptWrites) = tl (writtenKeys samplePlatform sampleCache promptWrites)
      \<and> length (store (storeAll samplePlatform sampleCache promptWrites)) = maxEntries sampleCache"
    using T en adm dist ttl len by blast
  have fc: "fullCache =
      \<lparr>enabled = True, maxEntries = 2, ttlMs = 1000,
       store = [(''k2'', \<lparr>val = terminalResponse, createdAt = 1, expiresAt = Some 1001\<rparr>),
                (''k3'', \<lparr>val = terminalResponse, createdAt = 2, expiresAt = Some 1002\<rparr>)]\<rparr>"
    by (simp add: fullCache_def runOps_def sampleOptions_def PromptCache_def storeResponse_def sc
          keyOf_def Let_def pruneExpired_def expired_def evictOldest_drop cloneValue_def)
  have hit: "fst (lookup samplePlatform 3 fullCache (JStr ''k2''))
      = (Some ''k2'', Some \<lparr>val = terminalResponse, createdAt = 1, expiresAt = Some 1001\<rparr>)"
    by (simp add: fc lookup_def keyOf_def pruneExpired_def expired_def Let_def)
  have pr: "keysOf (pruneExpired 3 fullCache) = [''k2'', ''k3'']"
    by (simp add: fc keysOf_def pruneExpired_def expired_def)
  have "keysOf (snd (lookup samplePlatform 3 fullCache (JStr ''k2'')))
      = removeAll ''k2'' (keysOf (pruneExpired 3 fullCache)) @ [''k2'']"
    using lru_eviction [OF fullCache_def, where ws = "[]"] hit by blast
  then have moved: "keysOf (snd (lookup samplePlatform 3 fullCache (JStr ''k2''))) = [''k3'', ''k2'']"
    by (simp add: pr)
  show ?thesis
    using reach en adm dist ttl len full moved hit by (simp add: wk)
qed

subsection \<open>The key\<close>

lemma normaliseObject_undefined: "normaliseObject v = JUndefined \<longleftrightarrow> v = JUndefined"
  by (cases v) simp_all

lemma nullish_normaliseObject: "nullish (normaliseObject v) = nullish v"
  by (cases v) simp_all

lemma truthy_normaliseObject: "truthy (normaliseObject v) = truthy v"
  by (cases v) simp_all

lemma getProp_map_normalise:
  "getProp (JObj (map (\<lambda>(k, v). (k, normaliseObject v)) kvs)) k = normaliseObject (getProp (JObj kvs) k)"
  by (induction kvs) auto

text \<open>The object case of \<open>normaliseObject\<close> in the form of the source's loop.\<close>

lemma normaliseObject_loop:
  "normaliseObject (JObj kvs) =
     JObj (map (\<lambda>k. (k, normaliseObject (getProp (JObj kvs) k)))
            (filter (\<lambda>k. getProp (JObj kvs) k \<noteq> JUndefined) (sort (remdups (map fst kvs)))))"
proof -
  have fst_eq: "map fst (map (\<lambda>(k, v). (k, normaliseObject v)) kvs) = map fst kvs"
    by (induction kvs) auto
  show ?thesis
    unfolding normaliseObject.simps sortedEntries_def fst_eq getProp_map_normalise
      normaliseObject_undefined ..
qed

lemma normalise_coalesce:
  assumes "normaliseObject a = normaliseObject b"
  shows "normaliseObject (coalesce a JNull) = normaliseObject (coalesce b JNull)"
proof -
  have "nullish a = nullish b"
    using assms nullish_normaliseObject by metis
  then show ?thesis using assms by (simp add: coalesce_def)
qed

lemma normalise_normalisedOrNull:
  assumes "normaliseObject a = normaliseObject b"
  shows "normalisedOrNull a = normalisedOrNull b"
proof -
  have "truthy a = truthy b"
    using assms truthy_normaliseObject by metis
  then show ?thesis using assms by (simp add: normalisedOrNull_def)
qed

lemma normalise_canonical:
  assumes "\<forall>f \<in> set cacheKeyFields. normaliseObject (getProp p f) = normaliseObject (getProp q f)"
  shows "normaliseObject (canonical p) = normaliseObject (canonical q)"
proof -
  have eq: "\<And>f. f \<in> set cacheKeyFields \<Longrightarrow> normaliseObject (getProp p f) = normaliseObject (getProp q f)"
    using assms by blast
  have c: "\<And>f. f \<in> set cacheKeyFields \<Longrightarrow>
      normaliseObject (coalesce (getProp p f) JNull) = normaliseObject (coalesce (getProp q f) JNull)"
    by (rule normalise_coalesce) (rule eq)
  have n: "\<And>f. f \<in> set cacheKeyFields \<Longrightarrow>
      normalisedOrNull (getProp p f) = normalisedOrNull (getProp q f)"
    by (rule normalise_normalisedOrNull) (rule eq)
  have "map (\<lambda>(k, v). (k, normaliseObject v))
          [(''model'', coalesce (getProp p ''model'') JNull),
           (''input'', coalesce (getProp p ''input'') JNull),
           (''messages'', normalisedOrNull (getProp p ''messages'')),
           (''tools'', normalisedOrNull (getProp p ''tools'')),
           (''tool_choice'', normalisedOrNull (getProp p ''tool_choice'')),
           (''temperature'', coalesce (getProp p ''temperature'') JNull),
           (''top_p'', coalesce (getProp p ''top_p'') JNull),
           (''max_tokens'', coalesce (getProp p ''max_tokens'') JNull)]
      = map (\<lambda>(k, v). (k, normaliseObject v))
          [(''model'', coalesce (getProp q ''model'') JNull),
           (''input'', coalesce (getProp q ''input'') JNull),
           (''messages'', normalisedOrNull (getProp q ''messages'')),
           (''tools'', normalisedOrNull (getProp q ''tools'')),
           (''tool_choice'', normalisedOrNull (getProp q ''tool_choice'')),
           (''temperature'', coalesce (getProp q ''temperature'') JNull),
           (''top_p'', coalesce (getProp q ''top_p'') JNull),
           (''max_tokens'', coalesce (getProp q ''max_tokens'') JNull)]"
    using c [of "''model''"] c [of "''input''"] n [of "''messages''"] n [of "''tools''"]
      n [of "''tool_choice''"] c [of "''temperature''"] c [of "''top_p''"] c [of "''max_tokens''"]
    by (simp add: cacheKeyFields_def)
  then show ?thesis
    unfolding canonical_def normaliseObject.simps by (rule arg_cong)
qed

text \<open>
  C3 (determinism of the cache key). Two request payloads (objects) whose eight key
  fields agree once normalised (object keys sorted recursively, \<open>undefined\<close> properties
  dropped) get the same key from \<open>buildKey\<close>, whatever else the payloads hold.
\<close>

theorem buildKey_deterministic:
  assumes "truthy p" "typeofObject p" "truthy q" "typeofObject q"
    and "\<forall>f \<in> set cacheKeyFields. normaliseObject (getProp p f) = normaliseObject (getProp q f)"
  shows "buildKey pf c p = buildKey pf c q"
  using assms(1-4) normalise_canonical [OF assms(5)]
  by (simp add: buildKey_def stableStringify_def)

lemma sample_fields_agree:
  "list_all (\<lambda>f. normaliseObject (getProp payloadA f) = normaliseObject (getProp payloadB f)) cacheKeyFields"
  by code_simp

theorem buildKey_deterministic_witness:
  "truthy payloadA \<and> typeofObject payloadA \<and> truthy payloadB \<and> typeofObject payloadB
   \<and> payloadA \<noteq> payloadB
   \<and> list_all (\<lambda>f. normaliseObject (getProp payloadA f) = normaliseObject (getProp payloadB f)) cacheKeyFields
   \<and> buildKey samplePlatform sampleCache payloadA = buildKey samplePlatform sampleCache payloadB"
proof -
  have agree: "\<forall>f \<in> set cacheKeyFields.
      normaliseObject (getProp payloadA f) = normaliseObject (getProp payloadB f)"
    using sample_fields_agree by (simp add: list_all_iff)
  have obj: "truthy payloadA" "typeofObject payloadA" "truthy payloadB" "typeofObject payloadB"
    by (simp_all add: payloadA_def payloadB_def)
  have "payloadA \<noteq> payloadB" by (simp add: payloadA_def payloadB_def)
  then show ?thesis
    using obj sample_fields_agree
      buildKey_deterministic [OF obj agree, of samplePlatform sampleCache]
    by simp
qed

subsection \<open>A disabled cache\<close>

text \<open>
  C10 (a disabled cache is inert). When the cache is not enabled (the constructor was
  given anything but \<open>enabled: true\<close>), \<open>buildKey\<close>, \<open>lookup\<close>, \<open>fetch\<close> and
  \<open>storeResponse\<close> return \<open>null\<close> for every argument, and they and \<open>pruneExpired\<close>
  leave the cache, its store included, exactly as it was; so does every sequence of calls.
\<close>

lemma applyOp_disabled: "\<not> enabled c \<Longrightarrow> applyOp pf c op = c"
  by (cases op) (simp_all add: lookup_def fetch_def storeResponse_def pruneExpired_def)

lemma runOps_disabled: "\<not> enabled c \<Longrightarrow> runOps pf c ops = c"
  unfolding runOps_def by (induction ops) (simp_all add: applyOp_disabled)

theorem disabled_cache_inert:
  assumes "\<not> enabled c"
  shows "buildKey pf c payload = None
       \<and> lookup pf now c payload = ((None, None), c)
       \<and> fetch pf now c payload = (None, c)
       \<and> storeResponse pf now c payload response = (None, c)
       \<and> pruneExpired now c = c
       \<and> runOps pf c ops = c"
  using assms runOps_disabled [of c pf ops]
  by (simp add: buildKey_def lookup_def fetch_def storeResponse_def pruneExpired_def)

theorem disabled_cache_inert_witness:
  "\<not> enabled disabledCache
   \<and> buildKey samplePlatform disabledCache samplePayload = None
   \<and> lookup samplePlatform 5000 disabledCache samplePayload = ((None, None), disabledCache)
   \<and> fetch samplePlatform 5000 disabledCache samplePayload = (None, disabledCache)
   \<and> storeResponse samplePlatform 5000 disabledCache samplePayload terminalResponse = (None, disabledCache)
   \<and> pruneExpired 5000 disabledCache = disabledCache
   \<and> store disabledCache = [(''k1'', sampleEntry)]"
  using disabled_cache_inert
      [where c = disabledCache and pf = samplePlatform and payload = samplePayload and now = 5000
         and response = terminalResponse and ops = "[]"]
  by (simp add: disabledCache_def PromptCache_def)

section \<open>The policy\<close>

lemma policyDisallowedTools_nonempty: "[] \<notin> set (policyDisallowedTools env)"
  by (cases env) (simp_all add: policyDisallowedTools_def)

lemma isToolAllowed_iff:
  "[] \<notin> set (disallowedTools cfg) \<Longrightarrow>
   isToolAllowed cfg v \<longleftrightarrow> \<not> arrayIncludes (disallowedTools cfg) v"
  by (cases v) (auto simp: isToolAllowed_def)

text \<open>
  C7 (the disallow list is checked before the quota). The configured disallow list holds
  no empty name (\<open>policyDisallowedTools_nonempty\<close>). A call whose tool name is on the
  list is denied with status 403 and code \<open>tool_disallowed\<close> whatever the number of
  calls executed, the quota reached or not; a call whose name is not on the list, with
  the quota reached, is denied with status 429 and code \<open>tool_limit_reached\<close>.
\<close>

theorem disallow_list_before_quota:
  assumes "[] \<notin> set (disallowedTools cfg)"
  shows "(arrayIncludes (disallowedTools cfg) (toolNameOf call) \<longrightarrow>
            (\<forall>n. evaluateToolCall pf cfg call n =
                   Inr (deny (Some (''Tool '' @ jsToString (toolNameOf call) @ '' is disallowed by policy''))
                          403 ''tool_disallowed'')))
       \<and> (\<not> arrayIncludes (disallowedTools cfg) (toolNameOf call) \<and> n \<ge> maxToolCallsPerTurn cfg \<longrightarrow>
            evaluateToolCall pf cfg call n =
              Inr (deny (Some (''Exceeded max tool calls ('' @ showInt (maxToolCallsPerTurn cfg) @ '')''))
                     429 ''tool_limit_reached''))"
  using isToolAllowed_iff [OF assms, of "toolNameOf call"]
  by (simp add: evaluateToolCall_def Let_def)

theorem disallow_list_before_quota_witness:
  "[] \<notin> set (disallowedTools sampleConfig)
   \<and> arrayIncludes (disallowedTools sampleConfig) (toolNameOf (toolCall ''python_exec'' (JStr ''{}'')))
   \<and> maxToolCallsPerTurn sampleConfig \<le> 12
   \<and> evaluateToolCall samplePlatform sampleConfig (toolCall ''python_exec'' (JStr ''{}'')) 12
       = Inr (deny (Some ''Tool python_exec is disallowed by policy'') 403 ''tool_disallowed'')
   \<and> \<not> arrayIncludes (disallowedTools sampleConfig) (toolNameOf (toolCall ''fs_read'' (JStr ''{}'')))
   \<and> evaluateToolCall samplePlatform sampleConfig (toolCall ''fs_read'' (JStr ''{}'')) 12
       = Inr (deny (Some ''Exceeded max tool calls (12)'') 429 ''tool_limit_reached'')"
proof -
  have "policyDisallowedTools (Some ''web_fetch, ,python_exec'') = [''web_fetch'', ''python_exec'']"
    by code_simp
  then have list: "disallowedTools sampleConfig = [''web_fetch'', ''python_exec'']"
    by (simp add: sampleConfig_def)
  have quota: "maxToolCallsPerTurn sampleConfig = 12"
    by (simp add: sampleConfig_def)
  have twelve: "showInt 12 = ''12''" by code_simp
  have names: "toolNameOf (toolCall ''python_exec'' (JStr ''{}'')) = JStr ''python_exec''"
    "toolNameOf (toolCall ''fs_read'' (JStr ''{}'')) = JStr ''fs_read''"
    by (simp_all add: toolNameOf_def toolCall_def coalesce_def)
  have nonempty: "[] \<notin> set (disallowedTools sampleConfig)"
    by (simp add: list)
  show ?thesis
    using disallow_list_before_quota
        [OF nonempty, where call = "toolCall ''python_exec'' (JStr ''{}'')" and n = 12
           and pf = samplePlatform]
      disallow_list_before_quota
        [OF nonempty, where call = "toolCall ''fs_read'' (JStr ''{}'')" and n = 12
           and pf = samplePlatform]
    by (simp add: list quota twelve names)
qed

lemma blocklist_examples: "list_all (matchesAny SHELL_BLOCKLIST_PATTERNS) blocklistExamples"
  by code_simp

lemma blocklist_empty: "\<not> matchesAny SHELL_BLOCKLIST_PATTERNS []"
  by code_simp

lemma shellCommand_nullish: "nullish args \<Longrightarrow> shellCommand args = []"
  by (cases args) (simp_all add: shellCommand_def)

text \<open>
  The cases that the shell check catches: a call whose name is \<open>shell\<close>, not on the
  disallow list and within the quota, whose arguments are a string that parses to a value
  from which \<open>evaluateShellCall\<close> builds a command on the blocklist, is denied with
  status 403 and code \<open>unsafe_shell_command\<close>. Each of the eight commands of the list
  matches (lemma \<open>blocklist_examples\<close>).
\<close>

lemma shell_blocklist_denied:
  assumes "toolNameOf call = JStr ''shell''"
    and "''shell'' \<notin> set (disallowedTools cfg)"
    and "n < maxToolCallsPerTurn cfg"
    and "getProp (getProp call ''function'') ''arguments'' = JStr raw"
    and "JSON_parse pf raw = Some args"
    and "matchesAny SHELL_BLOCKLIST_PATTERNS (shellCommand args)"
  shows "evaluateToolCall pf cfg call n =
           Inr (deny (Some ''Command matched restricted pattern'') 403 ''unsafe_shell_command'')"
proof -
  have nonempty: "shellCommand args \<noteq> []"
    using assms(6) blocklist_empty by auto
  then have notnull: "\<not> nullish args"
    using shellCommand_nullish by blast
  have parsed: "policy_parseArguments pf call = args"
    using assms(4,5) by (simp add: policy_parseArguments_def)
  have shell: "evaluateShellCall args =
      Inr (allow\<lparr>allowed := False, reason := Some ''Command matched restricted pattern''\<rparr>)"
    using nonempty notnull assms(6) by (simp add: evaluateShellCall_def)
  have "evaluateByTool cfg ''shell'' args =
      Inr (deny (Some ''Command matched restricted pattern'') 403 ''unsafe_shell_command'')"
    by (simp add: evaluateByTool_def shell allow_def)
  then show ?thesis
    using assms(1,2,3) parsed
    by (simp add: evaluateToolCall_def isToolAllowed_def Let_def)
qed

lemma shell_blocklist_denied_example:
  "toolNameOf (toolCall ''shell'' (JStr sampleArguments)) = JStr ''shell''
   \<and> ''shell'' \<notin> set (disallowedTools sampleConfig)
   \<and> 11 < maxToolCallsPerTurn sampleConfig
   \<and> JSON_parse samplePlatform sampleArguments = Some (JObj [(''command'', JStr ''rm -rf /'')])
   \<and> matchesAny SHELL_BLOCKLIST_PATTERNS (shellCommand (JObj [(''command'', JStr ''rm -rf /'')]))
   \<and> evaluateToolCall samplePlatform sampleConfig (toolCall ''shell'' (JStr sampleArguments)) 11
       = Inr (deny (Some ''Command matched restricted pattern'') 403 ''unsafe_shell_command'')"
proof -
  have "policyDisallowedTools (Some ''web_fetch, ,python_exec'') = [''web_fetch'', ''python_exec'']"
    by code_simp
  then have list: "''shell'' \<notin> set (disallowedTools sampleConfig)"
    by (simp add: sampleConfig_def)
  have quota: "11 < maxToolCallsPerTurn sampleConfig"
    by (simp add: sampleConfig_def)
  have name: "toolNameOf (toolCall ''shell'' (JStr sampleArguments)) = JStr ''shell''"
    by (simp add: toolNameOf_def toolCall_def coalesce_def)
  have raw: "getProp (getProp (toolCall ''shell'' (JStr sampleArguments)) ''function'') ''arguments''
               = JStr sampleArguments"
    by (simp add: toolCall_def)
  have parse: "JSON_parse samplePlatform sampleArguments = Some (JObj [(''command'', JStr ''rm -rf /'')])"
    by (simp add: samplePlatform_def)
  have m: "matchesAny SHELL_BLOCKLIST_PATTERNS (shellCommand (JObj [(''command'', JStr ''rm -rf /'')]))"
    by code_simp
  show ?thesis
    using name list quota parse m shell_blocklist_denied [OF name list quota raw parse m]
    by simp
qed

text \<open>
  Two limits that the code sets on purpose. Arguments that arrive as a structured object
  are not parsed, by the policy or by the registry: the call counts as one without
  arguments. The disallow list and the quota are answered before the shell check.
\<close>

lemma shell_check_limits:
  "matchesAny SHELL_BLOCKLIST_PATTERNS (shellCommand (JObj [(''command'', JStr ''rm -rf /'')]))
   \<and> evaluateToolCall samplePlatform sampleConfig
        (toolCall ''shell'' (JObj [(''command'', JStr ''rm -rf /'')])) 0 = Inr allow
   \<and> JSON_parse samplePlatform sampleArguments = Some (JObj [(''command'', JStr ''rm -rf /'')])
   \<and> evaluateToolCall samplePlatform sampleConfig (toolCall ''shell'' (JStr sampleArguments)) 12
        = Inr (deny (Some ''Exceeded max tool calls (12)'') 429 ''tool_limit_reached'')"
proof -
  have "policyDisallowedTools (Some ''web_fetch, ,python_exec'') = [''web_fetch'', ''python_exec'']"
    by code_simp
  then have list: "disallowedTools sampleConfig = [''web_fetch'', ''python_exec'']"
    by (simp add: sampleConfig_def)
  have quota: "maxToolCallsPerTurn sampleConfig = 12"
    by (simp add: sampleConfig_def)
  have twelve: "showInt 12 = ''12''" by code_simp
  have m: "matchesAny SHELL_BLOCKLIST_PATTERNS ''rm -rf /''" by code_simp
  have cmd: "shellCommand (JObj [(''command'', JStr ''rm -rf /'')]) = ''rm -rf /''"
    by (simp add: shellCommand_def)
  show ?thesis
    by (simp add: cmd m evaluateToolCall_def isToolAllowed_def toolNameOf_def toolCall_def
          coalesce_def list quota twelve policy_parseArguments_def evaluateByTool_def
          evaluateShellCall_def shellCommand_def samplePlatform_def allow_def Let_def)
qed

text \<open>A name other than \<open>shell\<close>, \<open>python_exec\<close> and the git tools passes every check after the quota.\<close>

lemma policy_skips_other_names:
  assumes "toolNameOf call = JStr name"
    and "name \<notin> set (disallowedTools cfg)"
    and "n < maxToolCallsPerTurn cfg"
    and "name \<noteq> ''shell''" "name \<noteq> ''python_exec''" "\<not> prefix ''workspace_git_'' name"
  shows "evaluateToolCall pf cfg call n = Inr allow"
  using assms
  by (simp add: evaluateToolCall_def isToolAllowed_def evaluateByTool_def Let_def)

lemma shellCommand_string_args: "shellCommand (JObj [(''args'', JStr a)]) = []"
  by (simp add: shellCommand_def)

lemma shellTools_registered:
  "registerTool ''shell'' echoShellHandler (JObj [(''category'', JStr ''execution'')]) noTools = Inr shellTools"
proof -
  have "toLowerCase ''shell'' = ''shell''" by code_simp
  then show ?thesis by (simp add: registerTool_def noTools_def shellTools_def)
qed

lemma alias_bash: "aliasTarget ''bash'' = Some ''shell''"
  by (simp add: aliasTarget_def TOOL_ALIASES_def)

lemma sample_parse:
  "JSON_parse samplePlatform sampleArguments = Some (JObj [(''command'', JStr ''rm -rf /'')])"
  "JSON_parse samplePlatform sampleArgsString = Some (JObj [(''args'', JStr ''rm -rf /'')])"
  by (simp_all add: samplePlatform_def sampleArguments_def sampleArgsString_def quoted_def)

lemma sample_not_blank:
  "\<not> list_all (\<lambda>c. c \<in> set whiteSpace) sampleArguments"
  "\<not> list_all (\<lambda>c. c \<in> set whiteSpace) sampleArgsString"
  by (simp_all add: sampleArguments_def sampleArgsString_def quoted_def whiteSpace_def)

lemma trim_rm: "trim ''rm -rf /'' = ''rm -rf /''"
  by code_simp

lemma sampleConfig_values:
  "disallowedTools sampleConfig = [''web_fetch'', ''python_exec'']"
  "maxToolCallsPerTurn sampleConfig = 12"
proof -
  have "policyDisallowedTools (Some ''web_fetch, ,python_exec'') = [''web_fetch'', ''python_exec'']"
    by code_simp
  then show "disallowedTools sampleConfig = [''web_fetch'', ''python_exec'']"
    by (simp add: sampleConfig_def)
  show "maxToolCallsPerTurn sampleConfig = 12" by (simp add: sampleConfig_def)
qed

lemma policy_allows_string_args:
  "evaluateToolCall samplePlatform sampleConfig (toolCall ''shell'' (JStr sampleArgsString)) 0 = Inr allow"
  by (simp add: evaluateToolCall_def isToolAllowed_def toolNameOf_def toolCall_def coalesce_def
        sampleConfig_values policy_parseArguments_def sample_parse evaluateByTool_def
        evaluateShellCall_def shellCommand_def allow_def Let_def)

lemma policy_allows_alias:
  "evaluateToolCall samplePlatform sampleConfig (toolCall ''bash'' (JStr sampleArguments)) 0 = Inr allow"
  by (simp add: evaluateToolCall_def isToolAllowed_def toolNameOf_def toolCall_def coalesce_def
        sampleConfig_values policy_parseArguments_def sample_parse evaluateByTool_def Let_def)

lemma spawn_string_args:
  "shellSpawn ''/srv/ws'' (JObj [(''args'', JStr ''rm -rf /'')])
     = Inr \<lparr>spawnCommand = ''bash'', spawnArgs = [''-lc'', ''rm -rf /''], spawnCwd = ''/srv/ws''\<rparr>"
  by (simp add: shellSpawn_def coalesce_def normaliseCwd_def trim_rm Let_def)

lemma spawn_command:
  "shellSpawn ''/srv/ws'' (JObj [(''command'', JStr ''rm -rf /'')])
     = Inr \<lparr>spawnCommand = ''bash'', spawnArgs = [''-lc'', ''rm -rf /''], spawnCwd = ''/srv/ws''\<rparr>"
  by (simp add: shellSpawn_def coalesce_def normaliseCwd_def trim_rm Let_def)

lemma runs_string_args:
  "map_sum id (\<lambda>r. (r_name r, r_status r, r_content r))
     (executeToolCall samplePlatform 0 shellTools (toolCall ''shell'' (JStr sampleArgsString)) JNull)
     = Inr (JStr ''shell'', JNum 200, ''bash -lc rm -rf /'')"
  by (simp add: executeToolCall_def normaliseToolCall_def tools_parseArguments_def resolveTool_def
        registryGet_def toolNameOf_def toolCall_def coalesce_def sample_parse sample_not_blank
        shellTools_def echoShellHandler_def spawn_string_args normalizeHandlerResult_def
        coerceString_def Let_def)

lemma runs_alias:
  "map_sum id (\<lambda>r. (r_name r, r_status r, r_content r))
     (executeToolCall samplePlatform 0 shellTools (toolCall ''bash'' (JStr sampleArguments)) JNull)
     = Inr (JStr ''shell'', JNum 200, ''bash -lc rm -rf /'')"
proof -
  have low: "toLowerCase ''bash'' = ''bash''" by code_simp
  show ?thesis
    by (simp add: executeToolCall_def normaliseToolCall_def tools_parseArguments_def resolveTool_def
        resolveByAlias_def registryGet_def toolNameOf_def toolCall_def coalesce_def sample_parse
        sample_not_blank low alias_bash
        shellTools_def echoShellHandler_def spawn_command normalizeHandlerResult_def
        coerceString_def Let_def)
qed

text \<open>
  C4 (shell safety). The claim is that every call to the shell tool whose arguments give,
  through \<open>command\<close>, \<open>cmd\<close>, \<open>run\<close>, \<open>args\<close> or an array, a command on the blocklist
  is denied with status 403 and code \<open>unsafe_shell_command\<close>. Two calls, within the quota,
  not on the disallow list and with their arguments in a JSON string, are allowed by
  \<open>evaluateToolCall\<close> and then run \<open>bash -lc\<close> with the command \<open>rm -rf /\<close>, which is
  on the blocklist. The call of \<open>shell\<close> with the arguments \<open>{"args":"rm -rf /"}\<close>:
  \<open>evaluateShellCall\<close> reads \<open>args\<close> only when it is an array, while the handler runs a
  string \<open>args\<close>. The call of \<open>bash\<close> with the arguments \<open>{"command":"rm -rf /"}\<close>:
  \<open>evaluateToolCall\<close> compares the name as sent with \<open>shell\<close>, while
  \<open>executeToolCall\<close> resolves the alias to the handler of \<open>shell\<close>.
\<close>

theorem shell_blocklist_bypassed:
  "matchesAny SHELL_BLOCKLIST_PATTERNS ''rm -rf /''
   \<and> JSON_parse samplePlatform sampleArgsString = Some (JObj [(''args'', JStr ''rm -rf /'')])
   \<and> evaluateToolCall samplePlatform sampleConfig (toolCall ''shell'' (JStr sampleArgsString)) 0 = Inr allow
   \<and> map_sum id (\<lambda>r. (r_name r, r_status r, r_content r))
        (executeToolCall samplePlatform 0 shellTools (toolCall ''shell'' (JStr sampleArgsString)) JNull)
        = Inr (JStr ''shell'', JNum 200, ''bash -lc rm -rf /'')
   \<and> JSON_parse samplePlatform sampleArguments = Some (JObj [(''command'', JStr ''rm -rf /'')])
   \<and> evaluateToolCall samplePlatform sampleConfig (toolCall ''bash'' (JStr sampleArguments)) 0 = Inr allow
   \<and> map_sum id (\<lambda>r. (r_name r, r_status r, r_content r))
        (executeToolCall samplePlatform 0 shellTools (toolCall ''bash'' (JStr sampleArguments)) JNull)
        = Inr (JStr ''shell'', JNum 200, ''bash -lc rm -rf /'')"
proof -
  have m: "matchesAny SHELL_BLOCKLIST_PATTERNS ''rm -rf /''" by code_simp
  show ?thesis
    using m sample_parse policy_allows_string_args policy_allows_alias runs_string_args runs_alias
    by blast
qed

section \<open>The tool registry\<close>

lemma toLowerCase_Grep: "toLowerCase ''Grep'' = ''grep''" "toLowerCase ''grep'' = ''grep''"
  "toLowerCase ''workspace_search'' = ''workspace_search''"
  by code_simp+

lemma grepTools_registered:
  "(case registerTool ''workspace_search'' searchHandler (JObj []) noTools of
      Inl e \<Rightarrow> Inl e
    | Inr ts \<Rightarrow> registerTool ''Grep'' grepHandler (JObj []) ts) = Inr grepTools"
  by (simp add: registerTool_def noTools_def grepTools_def toLowerCase_Grep)

lemma alias_grep: "aliasTarget ''grep'' = Some ''workspace_search''"
  by (simp add: aliasTarget_def TOOL_ALIASES_def)

text \<open>
  C8 (order of the name resolution). The claim is that \<open>executeToolCall\<close> tries the
  exact name, then the lowercase map, then the alias table, as \<open>getTool\<close> does. The code
  of \<open>executeToolCall\<close> tries the alias table before the lowercase map: with the tools
  \<open>workspace_search\<close> and \<open>Grep\<close> registered, the call \<open>grep\<close> runs
  \<open>workspace_search\<close>, while \<open>getTool\<close> gives \<open>Grep\<close> for the same name.
\<close>

theorem executeToolCall_alias_before_lowercase:
  "map_sum id (\<lambda>r. (r_name r, r_content r))
     (executeToolCall pf now grepTools (toolCall ''grep'' (JStr ''{}'')) context)
     = Inr (JStr ''workspace_search'', ''from workspace_search'')
   \<and> map_sum id (map_option (\<lambda>t. handler t JNull JNull)) (getTool grepTools (JStr ''grep''))
     = Inr (Some (Returns (JStr ''from Grep'')))"
  by (simp add: executeToolCall_def normaliseToolCall_def resolveTool_def resolveByAlias_def
        registryGet_def getTool_def toolNameOf_def toolCall_def coalesce_def alias_grep
        toLowerCase_Grep grepTools_def searchHandler_def grepHandler_def
        normalizeHandlerResult_def Let_def)

text \<open>
  C5 (\<open>executeToolCall\<close> never raises). The claim is that a call without a name gets
  the 404 tool result. The code calls \<open>toLowerCase\<close> on the missing name after the
  first lookup has failed: for every registry the call raises a TypeError, where
  \<open>getTool\<close> answers that there is no such tool.
\<close>

theorem executeToolCall_missing_name_throws:
  "executeToolCall pf now ts (JObj [(''id'', JStr ''call_1''), (''function'', JObj [(''arguments'', JStr ''{}'')])]) context
     = Inl (TypeError ''Cannot read properties of undefined (reading toLowerCase)'')
   \<and> getTool ts (toolNameOf (JObj [(''id'', JStr ''call_1''), (''function'', JObj [(''arguments'', JStr ''{}'')])]))
     = Inr None"
  by (simp add: executeToolCall_def normaliseToolCall_def resolveTool_def registryGet_def
        getTool_def toolNameOf_def coalesce_def Let_def)

section \<open>The MCP client\<close>

lemma request_closed:
  "closed c \<Longrightarrow> \<exists>e. request wr method params c = (Inl (Error e), c)"
  by (simp add: request_def)

lemma pendingInv_request: "pendingInv c \<Longrightarrow> pendingInv (snd (request wr method params c))"
  by (auto simp: pendingInv_def request_def Let_def settle_def split: option.splits)

lemma pendingInv_handleMessage: "pendingInv c \<Longrightarrow> pendingInv (handleMessage message c)"
  by (auto simp: pendingInv_def handleMessage_def Let_def settle_def split: option.splits)

lemma pendingInv_close: "pendingInv c \<Longrightarrow> pendingInv (close err c)"
  by (auto simp: pendingInv_def close_def Let_def)

lemma pendingInv_notify: "pendingInv c \<Longrightarrow> pendingInv (notify wr method params c)"
  by (auto simp: pendingInv_def notify_def split: option.splits)

lemma pendingInv_start: "pendingInv c \<Longrightarrow> start wr c = Inr c' \<Longrightarrow> pendingInv c'"
proof -
  assume inv: "pendingInv c" and st: "start wr c = Inr c'"
  have "pendingInv (c\<lparr>process := True, readInterface := True, started := True\<rparr>)"
    using inv by (simp add: pendingInv_def)
  then have "pendingInv (initialize wr (c\<lparr>process := True, readInterface := True, started := True\<rparr>))"
    unfolding initialize_def by (rule pendingInv_request)
  then show ?thesis
    using inv st by (auto simp: start_def split: if_splits)
qed

lemma pendingInv_step: "pendingInv c \<Longrightarrow> pendingInv (step c ev)"
proof (cases ev)
  case (Start wr)
  assume "pendingInv c"
  then show ?thesis using Start pendingInv_start [of c wr]
    by (cases "start wr c") auto
qed (auto simp: pendingInv_request pendingInv_handleMessage pendingInv_close pendingInv_notify)

lemma pendingInv_run: "pendingInv c \<Longrightarrow> pendingInv (run c evs)"
  unfolding run_def by (induction evs arbitrary: c) (auto simp: pendingInv_step)

lemma pendingInv_new: "McpClient srv = Inr c0 \<Longrightarrow> pendingInv c0"
  by (auto simp: McpClient_def pendingInv_def split: if_splits)

lemma fold_settle:
  "fold (\<lambda>i ps. settle i outcome ps) xs ps j =
     (if j \<in> set xs \<and> ps j = Some Pending then Some outcome else ps j)"
  by (induction xs arbitrary: ps) (auto simp: settle_def)

lemma close_rejects:
  assumes "pendingInv c" "i \<in> set (pending c)"
  shows "promises (close err c) i = Some (Rejected (coalesce err connectionClosed))"
proof -
  have "\<not> closed c" using assms by (auto simp: pendingInv_def)
  moreover have "promises c i = Some Pending" using assms by (auto simp: pendingInv_def)
  ultimately show ?thesis
    using assms(2) by (simp add: close_def Let_def fold_settle connectionClosed_def)
qed

lemma close_closed: "closed (close err c)"
  by (simp add: close_def Let_def)

lemma close_pending: "pendingInv c \<Longrightarrow> pending (close err c) = []"
  by (auto simp: close_def Let_def pendingInv_def)

lemma shut_step: "shut c \<Longrightarrow> shut (step c ev) \<and> promises (step c ev) = promises c"
proof (cases ev)
  case (Start wr)
  assume "shut c"
  then show ?thesis using Start
    by (auto simp: shut_def start_def initialize_def request_def)
next
  case (HandleMessage message)
  assume "shut c"
  then show ?thesis using HandleMessage
    by (cases "getProp message ''id''") (auto simp: shut_def handleMessage_def)
qed (auto simp: shut_def request_def notify_def close_def)

lemma shut_run: "shut c \<Longrightarrow> shut (run c evs) \<and> promises (run c evs) = promises c"
  unfolding run_def
proof (induction evs arbitrary: c)
  case Nil
  then show ?case by simp
next
  case (Cons ev evs)
  from Cons.prems have s: "shut (step c ev)" and p: "promises (step c ev) = promises c"
    using shut_step by blast+
  from Cons.IH [OF s] p show ?case by simp
qed

text \<open>
  C6 (shutdown of the MCP client). Take a client as the constructor makes it and any
  sequence of events, then \<open>close\<close>. The client is closed and its pending map empty;
  the promise of every request that was pending is rejected (with the error given to
  \<open>close\<close>, or with "MCP connection closed"); after any further events, \<open>request\<close>
  raises an error and leaves the client as it is, so no promise is created; and a promise
  that is ever found fulfilled afterwards was fulfilled before the close.
\<close>

theorem close_rejects_pending_and_blocks_requests:
  assumes "McpClient srv = Inr c0"
  shows "closed (close err (run c0 evs))
       \<and> pending (close err (run c0 evs)) = []
       \<and> (\<forall>i \<in> set (pending (run c0 evs)).
            promises (close err (run c0 evs)) i = Some (Rejected (coalesce err connectionClosed)))
       \<and> (\<forall>evs' wr method params. \<exists>e.
            request wr method params (run (close err (run c0 evs)) evs')
              = (Inl (Error e), run (close err (run c0 evs)) evs'))
       \<and> (\<forall>evs' i v.
            promises (run (close err (run c0 evs)) evs') i = Some (Fulfilled v) \<longrightarrow>
            promises (close err (run c0 evs)) i = Some (Fulfilled v))"
proof -
  have inv: "pendingInv (run c0 evs)"
    using assms by (intro pendingInv_run pendingInv_new)
  have sh: "shut (close err (run c0 evs))"
    using inv by (simp add: shut_def close_closed close_pending)
  have later: "\<And>evs'. shut (run (close err (run c0 evs)) evs')
      \<and> promises (run (close err (run c0 evs)) evs') = promises (close err (run c0 evs))"
    using sh by (rule shut_run)
  have req: "\<And>evs' wr method params. \<exists>e.
      request wr method params (run (close err (run c0 evs)) evs')
        = (Inl (Error e), run (close err (run c0 evs)) evs')"
    using later by (intro request_closed) (simp add: shut_def)
  show ?thesis
    using sh inv later req by (simp add: shut_def close_rejects)
qed

theorem close_rejects_pending_and_blocks_requests_witness:
  "McpClient sampleServer = Inr sampleClient
   \<and> pending (run sampleClient sampleHistory) = [1, 2]
   \<and> pending (close JUndefined (run sampleClient sampleHistory)) = []
   \<and> promises (close JUndefined (run sampleClient sampleHistory)) 2 = Some (Rejected connectionClosed)
   \<and> (\<exists>e. request None ''tools/call'' (JObj [])
              (run (close JUndefined (run sampleClient sampleHistory)) [HandleMessage lateReply])
            = (Inl (Error e), run (close JUndefined (run sampleClient sampleHistory)) [HandleMessage lateReply]))
   \<and> promises (run (close JUndefined (run sampleClient sampleHistory)) [HandleMessage lateReply]) 2
       \<noteq> Some (Fulfilled (JStr ''late''))"
proof -
  have new: "McpClient sampleServer = Inr sampleClient"
    by (simp add: McpClient_def sampleServer_def sampleClient_def)
  have pend: "pending (run sampleClient sampleHistory) = [1, 2]"
    by (simp add: run_def sampleHistory_def sampleClient_def sampleServer_def start_def
          initialize_def request_def Let_def)
  note T = close_rejects_pending_and_blocks_requests [OF new, of JUndefined sampleHistory]
  have a: "pending (close JUndefined (run sampleClient sampleHistory)) = []"
    using T by blast
  have "promises (close JUndefined (run sampleClient sampleHistory)) 2
          = Some (Rejected (coalesce JUndefined connectionClosed))"
    using T pend by simp
  then have b: "promises (close JUndefined (run sampleClient sampleHistory)) 2 = Some (Rejected connectionClosed)"
    by (simp add: coalesce_def)
  have c: "\<exists>e. request None ''tools/call'' (JObj [])
              (run (close JUndefined (run sampleClient sampleHistory)) [HandleMessage lateReply])
            = (Inl (Error e), run (close JUndefined (run sampleClient sampleHistory)) [HandleMessage lateReply])"
    using T by blast
  have d: "promises (run (close JUndefined (run sampleClient sampleHistory)) [HandleMessage lateReply]) 2
       \<noteq> Some (Fulfilled (JStr ''late''))"
    using T b by (metis option.inject promise.distinct(5))
  show ?thesis using new pend a b c d by blast
qed

end
